theory Spec2Isabelle
  imports Complex_Main "HOL-Library.Word" "HOL-Library.Code_Target_Nat"
begin

section \<open>Values of the host language\<close>

text \<open>
  The vision route (\<^verbatim>\<open>POST /api/vision\<close>) receives upload descriptors, normalizes them
  (\<^verbatim>\<open>normalizeUploads\<close>), and decides per upload how the image reaches the model
  (\<^verbatim>\<open>buildImageInputs\<close>). Both functions are embedded here as HOL functions.

  Strings are HOL strings; a character stands for a code unit below 256. Bytes are 8-bit
  words. A thrown \<^verbatim>\<open>Error\<close> is the value \<open>Inl (Error message)\<close> of a sum type.
\<close>

type_synonym byte = "8 word"
type_synonym bytes = "byte list"

datatype error = Error string

text \<open>A number is a finite value, \<^verbatim>\<open>NaN\<close> or an infinity. Only comparisons are made on
  numbers, and these are exact on finite values.\<close>

datatype jsnum = Finite rat | NaN | PosInfinity | NegInfinity

text \<open>The descriptor fields that the normalizer probes with \<^verbatim>\<open>typeof\<close>,
  \<^verbatim>\<open>Buffer.isBuffer\<close> and \<^verbatim>\<open>instanceof\<close> hold a dynamically typed value.\<close>

datatype jsval =
    JUndefined
  | JNull
  | JBoolean bool
  | JNumber jsnum
  | JString string
  | JBuffer bytes
  | JArrayBuffer bytes
  | JUint8Array bytes
  | JObject

subsection \<open>String helpers\<close>

text \<open>\<^verbatim>\<open>String.prototype.trim\<close>: white space and line terminators are removed at both ends.\<close>

definition is_space :: "char \<Rightarrow> bool" where
  "is_space c = (of_char c \<in> {9, 10, 11, 12, 13, 32, 160 :: nat})"

definition trim :: "string \<Rightarrow> string" where
  "trim s = rev (dropWhile is_space (rev (dropWhile is_space s)))"

text \<open>\<^verbatim>\<open>String.prototype.toLowerCase\<close> on code units below 256.\<close>

definition lower_char :: "char \<Rightarrow> char" where
  "lower_char c =
     (let n = (of_char c :: nat)
      in if (65 \<le> n \<and> n \<le> 90) \<or> (192 \<le> n \<and> n \<le> 222 \<and> n \<noteq> 215)
         then char_of (n + 32) else c)"

definition toLowerCase :: "string \<Rightarrow> string" where
  "toLowerCase s = map lower_char s"

text \<open>Decimal rendering of an index inside a template literal.\<close>

function show_nat :: "nat \<Rightarrow> string" where
  "show_nat n =
     (if n < 10 then [char_of (48 + n)]
      else show_nat (n div 10) @ [char_of (48 + n mod 10)])"
  by pat_completeness auto
termination
  by (relation "measure id") auto

declare show_nat.simps [simp del]

subsection \<open>Constants of \<^verbatim>\<open>lib/uploads/constants\<close>\<close>

definition MIME_LOOKUP :: "string \<Rightarrow> string option" where
  "MIME_LOOKUP ext =
     (if ext = ''.png'' then Some ''image/png''
      else if ext = ''.jpg'' then Some ''image/jpeg''
      else if ext = ''.jpeg'' then Some ''image/jpeg''
      else if ext = ''.webp'' then Some ''image/webp''
      else if ext = ''.tif'' then Some ''image/tiff''
      else if ext = ''.tiff'' then Some ''image/tiff''
      else None)"

definition EXT_LOOKUP_BY_MIME :: "string \<Rightarrow> string option" where
  "EXT_LOOKUP_BY_MIME mime =
     (if mime = ''image/png'' then Some ''png''
      else if mime = ''image/jpeg'' then Some ''jpg''
      else if mime = ''image/webp'' then Some ''webp''
      else if mime = ''image/tiff'' then Some ''tiff''
      else None)"

text \<open>
  Both tables are plain objects, so indexing one by a text that is not a key of its own
  still finds the properties inherited from \<^verbatim>\<open>Object.prototype\<close>. Their values are
  functions, and for \<^verbatim>\<open>__proto__\<close> the prototype object; \<open>inherited_property\<close> gives the
  text such a value has inside a template literal. \<open>MIME_LOOKUP\<close> is only indexed by the
  result of \<^verbatim>\<open>path.extname\<close>, which is empty or starts with a dot and so never names an
  inherited property; \<open>EXT_LOOKUP_BY_MIME\<close> is indexed by a MIME type that the client chooses.
\<close>

definition inherited_property :: "string \<Rightarrow> string option" where
  "inherited_property key =
     (if key = ''__proto__'' then Some ''[object Object]''
      else if key = ''constructor'' then Some ''function Object() { [native code] }''
      else if key \<in> set [''__defineGetter__'', ''__defineSetter__'', ''hasOwnProperty'',
                          ''__lookupGetter__'', ''__lookupSetter__'', ''isPrototypeOf'',
                          ''propertyIsEnumerable'', ''toString'', ''valueOf'',
                          ''toLocaleString'']
      then Some (''function '' @ key @ ''() { [native code] }'')
      else None)"

definition MAX_UPLOAD_BYTES :: nat where
  "MAX_UPLOAD_BYTES = 45 * 1024 * 1024"

definition MAX_UPLOAD_COUNT :: nat where
  "MAX_UPLOAD_COUNT = 6"

text \<open>\<^verbatim>\<open>trimSlashes\<close>: \<^verbatim>\<open>value.replace(/^\/+|\/+$/g, "")\<close> on a string.\<close>

definition is_slash :: "char \<Rightarrow> bool" where
  "is_slash c = (c = CHR ''/'')"

definition trimSlashes :: "string \<Rightarrow> string" where
  "trimSlashes v = rev (dropWhile is_slash (rev (dropWhile is_slash v)))"


section \<open>Base64 and data URLs\<close>

text \<open>
  \<^verbatim>\<open>buffer.toString("base64")\<close> and \<^verbatim>\<open>Buffer.from(text, "base64")\<close> belong to the runtime.
  The encoder is the standard one (RFC 4648, padded). The decoder is the runtime's lenient
  one: it stops at the first \<^verbatim>\<open>=\<close>, skips characters outside the alphabet, and accepts
  the URL-safe characters \<^verbatim>\<open>-\<close> and \<^verbatim>\<open>_\<close> as well.
\<close>

definition b64_char :: "nat \<Rightarrow> char" where
  "b64_char n =
     (if n < 26 then char_of (65 + n)
      else if n < 52 then char_of (71 + n)
      else if n < 62 then char_of (n - 4)
      else if n = 62 then CHR ''+'' else CHR ''/'')"

fun base64_encode :: "bytes \<Rightarrow> string" where
  "base64_encode [] = []"
| "base64_encode [a] =
     [b64_char (unat a div 4), b64_char ((unat a mod 4) * 16), CHR ''='', CHR ''='']"
| "base64_encode [a, b] =
     [b64_char (unat a div 4), b64_char ((unat a mod 4) * 16 + unat b div 16),
      b64_char ((unat b mod 16) * 4), CHR ''='']"
| "base64_encode (a # b # c # rest) =
     [b64_char (unat a div 4), b64_char ((unat a mod 4) * 16 + unat b div 16),
      b64_char ((unat b mod 16) * 4 + unat c div 64), b64_char (unat c mod 64)]
     @ base64_encode rest"

definition unbase64 :: "char \<Rightarrow> nat option" where
  "unbase64 c =
     (let n = (of_char c :: nat)
      in if 65 \<le> n \<and> n \<le> 90 then Some (n - 65)
         else if 97 \<le> n \<and> n \<le> 122 then Some (n - 71)
         else if 48 \<le> n \<and> n \<le> 57 then Some (n + 4)
         else if c = CHR ''+'' \<or> c = CHR ''-'' then Some 62
         else if c = CHR ''/'' \<or> c = CHR ''_'' then Some 63
         else None)"

definition sextets :: "string \<Rightarrow> nat list" where
  "sextets s = List.map_filter unbase64 (takeWhile (\<lambda>c. c \<noteq> CHR ''='') s)"

fun from_sextets :: "nat list \<Rightarrow> bytes" where
  "from_sextets (p # q # r # s # rest) =
     [of_nat (p * 4 + q div 16), of_nat ((q mod 16) * 16 + r div 4), of_nat ((r mod 4) * 64 + s)]
     @ from_sextets rest"
| "from_sextets [p, q, r] = [of_nat (p * 4 + q div 16), of_nat ((q mod 16) * 16 + r div 4)]"
| "from_sextets [p, q] = [of_nat (p * 4 + q div 16)]"
| "from_sextets _ = []"

definition base64_decode :: "string \<Rightarrow> bytes" where
  "base64_decode s = from_sextets (sextets s)"

text \<open>\<^verbatim>\<open>bufferToDataUrl(buffer, mimeType = "application/octet-stream")\<close>; an absent
  second argument takes the default.\<close>

definition bufferToDataUrl :: "bytes \<Rightarrow> string option \<Rightarrow> string" where
  "bufferToDataUrl buffer mimeType =
     ''data:'' @ (case mimeType of None \<Rightarrow> ''application/octet-stream'' | Some m \<Rightarrow> m)
       @ '';base64,'' @ base64_encode buffer"

text \<open>
  The pattern \<^verbatim>\<open>/^data:(?<mime>[^;]+);base64,(?<data>.+)$/i\<close>. After the prefix, the
  \<open>mime\<close> group is the run of characters up to the first semicolon (the group cannot
  contain one, and a semicolon must follow it) and must not be empty; \<open>data\<close> is the rest
  of the string, not empty and free of line terminators, which \<^verbatim>\<open>.\<close> does not match.
  The result is the pair of the two groups.
\<close>

definition is_line_terminator :: "char \<Rightarrow> bool" where
  "is_line_terminator c = (of_char c \<in> {10, 13 :: nat})"

definition lower_ascii :: "string \<Rightarrow> string" where
  "lower_ascii s =
     map (\<lambda>c. let n = (of_char c :: nat) in if 65 \<le> n \<and> n \<le> 90 then char_of (n + 32) else c) s"

definition match_data_url :: "string \<Rightarrow> (string \<times> string) option" where
  "match_data_url s =
     (if lower_ascii (take 5 s) = ''data:'' then
        (let rest = drop 5 s;
             mime = takeWhile (\<lambda>c. c \<noteq> CHR '';'') rest;
             after = dropWhile (\<lambda>c. c \<noteq> CHR '';'') rest;
             data = drop 8 after
         in if mime \<noteq> [] \<and> lower_ascii (take 8 after) = '';base64,'' \<and> data \<noteq> []
               \<and> \<not> list_ex is_line_terminator data
            then Some (mime, data) else None)
      else None)"

section \<open>The platform\<close>

text \<open>
  What the route takes from its runtime and from the services it calls: the \<^verbatim>\<open>path\<close>
  module, the working directory, the file system, the configured object store with its two
  operations (each may throw), the generator of random identifiers, and the model client.
  \<open>s3Client\<close> is true when the bucket and both credentials are configured.
\<close>

datatype content = InputText string | InputImage string string

record platform =
  extname :: "string \<Rightarrow> string"
  path_join :: "string list \<Rightarrow> string"
  cwd :: string
  readFile :: "string \<Rightarrow> error + bytes"
  s3Client :: bool
  AWS_UPLOAD_PREFIX :: string
  AWS_SCHEMATICS_FOLDER :: string
  randomUUID :: "nat \<Rightarrow> string"
  putObject :: "string \<Rightarrow> bytes \<Rightarrow> string option \<Rightarrow> error option"
  getSignedUrl :: "string \<Rightarrow> error + string"
  OPENAI_API_KEY :: bool
  OPENAI_VISION_MODEL :: "string option"
  responses_create :: "string \<Rightarrow> string \<Rightarrow> content list \<Rightarrow> error + string"

section \<open>The upload normalizer\<close>

text \<open>
  A raw upload descriptor. The display name and the detail level are strings when present
  (the normalizer calls \<^verbatim>\<open>trim\<close> on the first and passes the second on); \<open>None\<close> is an
  absent or null field. A name of another type, and a list element that is null, make the
  callback throw a \<^verbatim>\<open>TypeError\<close> at its first lines; such input is outside the descriptor
  type and has no counterpart here. Every other field is probed by the normalizer before
  use.
\<close>

record upload =
  u_name :: "string option"
  u_detail :: "string option"
  u_dataUrl :: jsval
  u_url :: jsval
  u_s3Key :: jsval
  u_blobPathname :: jsval
  u_blobPath :: jsval
  u_buffer :: jsval
  u_bytes :: jsval
  u_size :: jsval
  u_mimeType :: jsval
  u_type :: jsval

text \<open>A normalized upload; a field that the returned object literal does not set is \<open>None\<close>.\<close>

record normalized =
  n_id :: string
  n_name :: string
  n_detail :: string
  n_buffer :: "bytes option"
  n_mimeType :: "string option"
  n_bytes :: "rat option"
  n_dataUrl :: "string option"
  n_blobPathname :: "string option"
  n_remoteUrl :: "string option"
  n_s3Key :: "string option"

text \<open>The constants that the callback of \<^verbatim>\<open>normalizeUploads\<close> binds first.\<close>

definition name_of :: "nat \<Rightarrow> upload \<Rightarrow> string" where
  "name_of index upload =
     (case u_name upload of
        None \<Rightarrow> ''Uploaded image '' @ show_nat (index + 1)
      | Some s \<Rightarrow> if trim s = [] then ''Uploaded image '' @ show_nat (index + 1) else trim s)"

definition detail_of :: "upload \<Rightarrow> string" where
  "detail_of upload = (case u_detail upload of None \<Rightarrow> ''high'' | Some d \<Rightarrow> d)"

definition dataUrl_of :: "upload \<Rightarrow> string" where
  "dataUrl_of upload = (case u_dataUrl upload of JString s \<Rightarrow> trim s | _ \<Rightarrow> [])"

definition remoteUrl_of :: "upload \<Rightarrow> string" where
  "remoteUrl_of upload = (case u_url upload of JString s \<Rightarrow> trim s | _ \<Rightarrow> [])"

definition s3Key_of :: "upload \<Rightarrow> string option" where
  "s3Key_of upload =
     (case u_s3Key upload of JString s \<Rightarrow> Some (trimSlashes (trim s)) | _ \<Rightarrow> None)"

definition blobPathname_of :: "upload \<Rightarrow> string option" where
  "blobPathname_of upload =
     (case u_blobPathname upload of
        JString s \<Rightarrow> Some (trimSlashes (trim s))
      | _ \<Rightarrow> (case u_blobPath upload of
                JString s \<Rightarrow> Some (trimSlashes (trim s))
              | _ \<Rightarrow> None))"

definition bufferCandidate :: "upload \<Rightarrow> bytes option" where
  "bufferCandidate upload =
     (case u_buffer upload of
        JBuffer b \<Rightarrow> Some b
      | JArrayBuffer b \<Rightarrow> Some b
      | JUint8Array b \<Rightarrow> Some b
      | _ \<Rightarrow> None)"

definition reportedBytes :: "upload \<Rightarrow> rat option" where
  "reportedBytes upload =
     (case u_bytes upload of
        JNumber (Finite r) \<Rightarrow> Some r
      | _ \<Rightarrow> (case u_size upload of
                JNumber (Finite r) \<Rightarrow> Some r
              | _ \<Rightarrow> None))"

definition explicitMime :: "upload \<Rightarrow> string option" where
  "explicitMime upload =
     (case u_mimeType upload of
        JString s \<Rightarrow> Some (toLowerCase s)
      | _ \<Rightarrow> (case u_type upload of
                JString s \<Rightarrow> Some (toLowerCase s)
              | _ \<Rightarrow> None))"

text \<open>\<^verbatim>\<open>reportedBytes ?? bufferCandidate.length\<close>: the size checked for a buffer is the
  declared one when a finite number is declared, and the measured one otherwise.\<close>

definition bytes_of :: "upload \<Rightarrow> bytes \<Rightarrow> rat" where
  "bytes_of upload buf =
     (case reportedBytes upload of Some r \<Rightarrow> r | None \<Rightarrow> of_nat (length buf))"

text \<open>The three messages of the normalizer.\<close>

definition limit_message :: "nat \<Rightarrow> upload \<Rightarrow> string" where
  "limit_message index upload =
     ''Uploaded image \"''
       @ (case u_name upload of None \<Rightarrow> ''#'' @ show_nat (index + 1) | Some s \<Rightarrow> s)
       @ ''\" exceeds the '' @ show_nat (MAX_UPLOAD_BYTES div (1024 * 1024)) @ ''MB limit.''"

definition data_url_message :: "nat \<Rightarrow> string" where
  "data_url_message index =
     ''Uploaded image #'' @ show_nat (index + 1) @ '' is missing a valid base64 data URL.''"

definition source_message :: "string \<Rightarrow> string" where
  "source_message name =
     ''Upload \"'' @ name @ ''\" must include either a base64 dataUrl, direct url, or s3Key.''"

text \<open>The callback given to \<^verbatim>\<open>map\<close>: one descriptor at its index.\<close>

definition normalizeUpload :: "platform \<Rightarrow> nat \<Rightarrow> upload \<Rightarrow> error + normalized" where
  "normalizeUpload pf index upload =
     (let id = ''upload-'' @ show_nat (index + 1);
          name = name_of index upload;
          detail = detail_of upload;
          dataUrl = dataUrl_of upload;
          remoteUrl = remoteUrl_of upload;
          s3Key = s3Key_of upload;
          blobPathname = blobPathname_of upload
      in case bufferCandidate upload of
           Some buf \<Rightarrow>
             (let bytes = bytes_of upload buf
              in if bytes > of_nat MAX_UPLOAD_BYTES then Inl (Error (limit_message index upload))
                 else
                   (let ext = toLowerCase (extname pf name);
                        inferredMime =
                          (case explicitMime upload of
                             Some m \<Rightarrow> m
                           | None \<Rightarrow> (case MIME_LOOKUP ext of
                                       Some m \<Rightarrow> m
                                     | None \<Rightarrow> ''application/octet-stream''))
                    in Inr \<lparr> n_id = id, n_name = name, n_detail = detail,
                             n_buffer = Some buf, n_mimeType = Some inferredMime,
                             n_bytes = Some bytes,
                             n_dataUrl = (if dataUrl = [] then None else Some dataUrl),
                             n_blobPathname = blobPathname,
                             n_remoteUrl = None, n_s3Key = None \<rparr>))
         | None \<Rightarrow>
             if dataUrl \<noteq> [] then
               (case match_data_url dataUrl of
                  None \<Rightarrow> Inl (Error (data_url_message index))
                | Some (mime, data) \<Rightarrow>
                    (let buffer = base64_decode data
                     in if length buffer > MAX_UPLOAD_BYTES
                        then Inl (Error (limit_message index upload))
                        else Inr \<lparr> n_id = id, n_name = name, n_detail = detail,
                                    n_buffer = Some buffer,
                                    n_mimeType = Some (toLowerCase mime),
                                    n_bytes = Some (of_nat (length buffer)),
                                    n_dataUrl = Some dataUrl,
                                    n_blobPathname = blobPathname,
                                    n_remoteUrl = None, n_s3Key = None \<rparr>))
             else if remoteUrl \<noteq> [] then
               Inr \<lparr> n_id = id, n_name = name, n_detail = detail,
                       n_buffer = None, n_mimeType = explicitMime upload,
                       n_bytes = reportedBytes upload, n_dataUrl = None,
                       n_blobPathname = blobPathname,
                       n_remoteUrl = Some remoteUrl, n_s3Key = None \<rparr>
             else if s3Key \<noteq> None \<and> s3Key \<noteq> Some [] then
               Inr \<lparr> n_id = id, n_name = name, n_detail = detail,
                       n_buffer = None, n_mimeType = explicitMime upload,
                       n_bytes = reportedBytes upload, n_dataUrl = None,
                       n_blobPathname = blobPathname,
                       n_remoteUrl = None, n_s3Key = s3Key \<rparr>
             else Inl (Error (source_message name)))"

text \<open>\<^verbatim>\<open>Array.prototype.map\<close> calls the callback in index order; the first throw ends
  it. \<open>map_from\<close> is that loop from a start index.\<close>

fun map_from :: "platform \<Rightarrow> nat \<Rightarrow> upload list \<Rightarrow> error + normalized list" where
  "map_from pf index [] = Inr []"
| "map_from pf index (upload # rest) =
     (case normalizeUpload pf index upload of
        Inl e \<Rightarrow> Inl e
      | Inr n \<Rightarrow> (case map_from pf (Suc index) rest of
                    Inl e \<Rightarrow> Inl e
                  | Inr ns \<Rightarrow> Inr (n # ns)))"

definition normalizeUploads :: "platform \<Rightarrow> upload list \<Rightarrow> error + normalized list" where
  "normalizeUploads pf uploads =
     (if uploads = [] then Inr []
      else map_from pf 0 (take MAX_UPLOAD_COUNT uploads))"


section \<open>The delivery strategy selector\<close>

text \<open>
  The route's effects on the outside are kept in a state: how many random identifiers have
  been drawn, what was written to the console, and which objects were put into the store.
\<close>

datatype log_entry = ConsoleError string error "(string \<times> string) list"

record pstate =
  uuid_calls :: nat
  console :: "log_entry list"
  s3_objects :: "(string \<times> bytes) list"

record summary =
  s_id :: string
  s_name :: string
  s_bytes :: "rat option"
  s_mimeType :: "string option"
  s_strategy :: "string option"
  s_url :: "string option"
  s_key :: "string option"
  s_blobPathname :: "string option"

text \<open>A string or \<^verbatim>\<open>undefined\<close> in a condition: true for a string that is not empty.\<close>

definition truthy :: "string option \<Rightarrow> bool" where
  "truthy v = (case v of None \<Rightarrow> False | Some s \<Rightarrow> s \<noteq> [])"

fun join :: "string \<Rightarrow> string list \<Rightarrow> string" where
  "join sep [] = []"
| "join sep [x] = x"
| "join sep (x # y # rest) = x @ sep @ join sep (y # rest)"

definition uploadBufferToS3 ::
  "platform \<Rightarrow> pstate \<Rightarrow> bytes \<Rightarrow> string option
     \<Rightarrow> pstate \<times> (error + (string \<times> string) option)" where
  "uploadBufferToS3 pf st buffer mimeType =
     (if \<not> s3Client pf then (st, Inr None)
      else
        (let extension =
               (case mimeType of
                  None \<Rightarrow> ''bin''
                | Some m \<Rightarrow>
                    (case EXT_LOOKUP_BY_MIME m of
                       Some e \<Rightarrow> e
                     | None \<Rightarrow> (case inherited_property m of
                                 Some shown \<Rightarrow> shown
                               | None \<Rightarrow> ''bin'')));
             keySegments =
               filter (\<lambda>seg. seg \<noteq> [])
                 [trimSlashes (AWS_UPLOAD_PREFIX pf), trimSlashes (AWS_SCHEMATICS_FOLDER pf),
                  randomUUID pf (uuid_calls st) @ ''.'' @ extension];
             key = join ''/'' keySegments;
             st1 = st\<lparr>uuid_calls := Suc (uuid_calls st)\<rparr>
         in case putObject pf key buffer mimeType of
              Some e \<Rightarrow> (st1, Inl e)
            | None \<Rightarrow>
                (let st2 = st1\<lparr>s3_objects := s3_objects st1 @ [(key, buffer)]\<rparr>
                 in case getSignedUrl pf key of
                      Inl e \<Rightarrow> (st2, Inl e)
                    | Inr signedUrl \<Rightarrow> (st2, Inr (Some (key, signedUrl))))))"

definition createSignedUrlForKey :: "platform \<Rightarrow> string \<Rightarrow> error + string \<times> string" where
  "createSignedUrlForKey pf key =
     (if \<not> s3Client pf then Inl (Error ''AWS credentials are not configured for S3 access.'')
      else
        (let sanitizedKey = trimSlashes key
         in case getSignedUrl pf sanitizedKey of
              Inl e \<Rightarrow> Inl e
            | Inr signedUrl \<Rightarrow> Inr (sanitizedKey, signedUrl)))"

text \<open>\<^verbatim>\<open>/vercel-storage\.com/i.test(url)\<close>: the text occurs somewhere, in any letter case.\<close>

fun includes_ci :: "string \<Rightarrow> string \<Rightarrow> bool" where
  "includes_ci pat [] = (pat = [])"
| "includes_ci pat (c # cs) =
     (lower_ascii (take (length pat) (c # cs)) = pat \<or> includes_ci pat cs)"

text \<open>
  The body of the loop over the normalized uploads keeps two variables, the image reference
  chosen so far (\<^verbatim>\<open>imageUrlPayload\<close>) and the summary, and runs four conditional steps on
  them in a fixed order. Each step is a function on the pair.
\<close>

type_synonym carry = "string option \<times> summary"

definition summary_start :: "normalized \<Rightarrow> summary" where
  "summary_start upload =
     \<lparr> s_id = n_id upload, s_name = n_name upload, s_bytes = n_bytes upload,
       s_mimeType = n_mimeType upload, s_strategy = None, s_url = None, s_key = None,
       s_blobPathname = None \<rparr>"

definition remote_summary :: "summary \<Rightarrow> normalized \<Rightarrow> string \<Rightarrow> summary" where
  "remote_summary summary upload remoteUrl =
     (let isBlobUrl = includes_ci ''vercel-storage.com'' remoteUrl;
          strategy = (if isBlobUrl then ''vercel-blob'' else ''remote-url'');
          summary1 = summary\<lparr>s_strategy := Some strategy, s_url := Some remoteUrl\<rparr>
      in if truthy (n_blobPathname upload)
         then summary1\<lparr>s_blobPathname := n_blobPathname upload\<rparr>
         else summary1)"

definition use_remote_url :: "normalized \<Rightarrow> carry \<Rightarrow> carry" where
  "use_remote_url upload c =
     (case c of (imageUrlPayload, summary) \<Rightarrow>
        (case n_remoteUrl upload of
           None \<Rightarrow> c
         | Some remoteUrl \<Rightarrow>
             if remoteUrl = [] then c
             else (Some remoteUrl, remote_summary summary upload remoteUrl)))"

text \<open>What the loop writes to the console and what it throws.\<close>

definition sign_failure_log :: "normalized \<Rightarrow> string \<Rightarrow> error \<Rightarrow> log_entry" where
  "sign_failure_log upload s3Key e =
     ConsoleError ''Failed to sign existing S3 key'' e
       [(''key'', s3Key), (''name'', n_name upload)]"

definition load_error :: "normalized \<Rightarrow> error" where
  "load_error upload =
     Error (''Unable to load uploaded image \"'' @ n_name upload @ ''\" from S3.'')"

definition offload_failure_log :: "normalized \<Rightarrow> error \<Rightarrow> log_entry" where
  "offload_failure_log upload e =
     ConsoleError ''Failed to offload upload to S3, falling back to inline'' e
       [(''name'', n_name upload)]"

definition no_image_error :: "normalized \<Rightarrow> error" where
  "no_image_error upload =
     Error (''Unable to determine an image URL for upload \"'' @ n_name upload @ ''\".'')"

definition sign_existing_key ::
  "platform \<Rightarrow> pstate \<Rightarrow> normalized \<Rightarrow> carry \<Rightarrow> pstate \<times> (error + carry)" where
  "sign_existing_key pf st upload c =
     (case c of (imageUrlPayload, summary) \<Rightarrow>
        (case n_s3Key upload of
           None \<Rightarrow> (st, Inr c)
         | Some s3Key \<Rightarrow>
             if truthy imageUrlPayload \<or> s3Key = [] then (st, Inr c)
             else
               (case createSignedUrlForKey pf s3Key of
                  Inr (key, url) \<Rightarrow>
                    if url \<noteq> [] then
                      (st, Inr (Some url,
                                summary\<lparr>s_strategy := Some ''s3-key'', s_key := Some key,
                                        s_url := Some url\<rparr>))
                    else (st, Inr c)
                | Inl e \<Rightarrow>
                    (st\<lparr>console := console st @ [sign_failure_log upload s3Key e]\<rparr>,
                     Inl (load_error upload)))))"

definition offload_buffer ::
  "platform \<Rightarrow> pstate \<Rightarrow> normalized \<Rightarrow> carry \<Rightarrow> pstate \<times> carry" where
  "offload_buffer pf st upload c =
     (case c of (imageUrlPayload, summary) \<Rightarrow>
        (case n_buffer upload of
           None \<Rightarrow> (st, c)
         | Some buffer \<Rightarrow>
             if truthy imageUrlPayload \<or> \<not> s3Client pf then (st, c)
             else
               (case uploadBufferToS3 pf st buffer (n_mimeType upload) of
                  (st', Inr (Some (key, url))) \<Rightarrow>
                    if url \<noteq> [] then
                      (st', (Some url,
                             summary\<lparr>s_strategy := Some ''s3'', s_key := Some key,
                                     s_url := Some url\<rparr>))
                    else (st', c)
                | (st', Inr None) \<Rightarrow> (st', c)
                | (st', Inl e) \<Rightarrow>
                    (st'\<lparr>console := console st' @ [offload_failure_log upload e]\<rparr>, c))))"

definition inline_fallback :: "normalized \<Rightarrow> carry \<Rightarrow> carry" where
  "inline_fallback upload c =
     (case c of (imageUrlPayload, summary) \<Rightarrow>
        if truthy imageUrlPayload then c
        else
          (let inlineDataUrl =
                 (if truthy (n_dataUrl upload) then n_dataUrl upload
                  else (case n_buffer upload of
                          None \<Rightarrow> None
                        | Some buffer \<Rightarrow>
                            if truthy (n_mimeType upload)
                            then Some (bufferToDataUrl buffer (n_mimeType upload))
                            else None))
           in if truthy inlineDataUrl
              then (inlineDataUrl, summary\<lparr>s_strategy := Some ''inline''\<rparr>)
              else c))"

text \<open>The label and the image reference pushed for an upload.\<close>

definition upload_blocks :: "normalized \<Rightarrow> string \<Rightarrow> content list" where
  "upload_blocks upload imageUrlPayload =
     [InputText (''Uploaded '' @ n_id upload @ '': '' @ n_name upload),
      InputImage imageUrlPayload (n_detail upload)]"

text \<open>One turn of the loop: the summary and the two content blocks of the upload, or the
  error thrown. The normalized uploads are local to the call, so clearing the buffer of an
  upload after its turn is not observable and is left out.\<close>

definition deliver ::
  "platform \<Rightarrow> pstate \<Rightarrow> normalized \<Rightarrow> pstate \<times> (error + summary \<times> content list)" where
  "deliver pf st upload =
     (case sign_existing_key pf st upload (use_remote_url upload (None, summary_start upload)) of
        (st1, Inl e) \<Rightarrow> (st1, Inl e)
      | (st1, Inr c1) \<Rightarrow>
          (case offload_buffer pf st1 upload c1 of
             (st2, c2) \<Rightarrow>
               (case inline_fallback upload c2 of
                  (imageUrlPayload, summary) \<Rightarrow>
                    if truthy imageUrlPayload then
                      (st2, Inr (summary,
                                 upload_blocks upload
                                   (case imageUrlPayload of Some u \<Rightarrow> u | None \<Rightarrow> [])))
                    else
                      (st2, Inl (no_image_error upload)))))"

fun deliver_all ::
  "platform \<Rightarrow> pstate \<Rightarrow> normalized list \<Rightarrow> content list \<Rightarrow> summary list
     \<Rightarrow> pstate \<times> (error + content list \<times> summary list)" where
  "deliver_all pf st [] contents uploadSummaries = (st, Inr (contents, uploadSummaries))"
| "deliver_all pf st (upload # rest) contents uploadSummaries =
     (case deliver pf st upload of
        (st', Inl e) \<Rightarrow> (st', Inl e)
      | (st', Inr (summary, blocks)) \<Rightarrow>
          deliver_all pf st' rest (contents @ blocks) (uploadSummaries @ [summary]))"

subsection \<open>Reference images of the configuration\<close>

record image =
  img_id :: string
  img_label :: string
  img_caption :: "string option"
  img_path :: string
  img_detail :: "string option"

record schematicConfig =
  images :: "image list"
  model_name :: string

definition toDataUrl :: "platform \<Rightarrow> string \<Rightarrow> bytes \<Rightarrow> error + string" where
  "toDataUrl pf filePath fileBuffer =
     (let ext = toLowerCase (extname pf filePath)
      in case MIME_LOOKUP ext of
           None \<Rightarrow>
             Inl (Error (''Unsupported schematic image extension \"'' @ ext
                           @ ''\". Update MIME_LOOKUP to continue.''))
         | Some mimeType \<Rightarrow> Inr (''data:'' @ mimeType @ '';base64,'' @ base64_encode fileBuffer))"

text \<open>The separator between label and caption, with the bytes the source file has for its
  characters outside ASCII.\<close>

definition caption_separator :: string where
  "caption_separator =
     '' '' @ map char_of [195, 162, 226, 130, 172, 226, 128, 157 :: nat] @ '' ''"

fun reference_images :: "platform \<Rightarrow> image list \<Rightarrow> content list \<Rightarrow> error + content list" where
  "reference_images pf [] contents = Inr contents"
| "reference_images pf (img # rest) contents =
     (let absolutePath = path_join pf [cwd pf, ''public'', dropWhile is_slash (img_path img)]
      in case readFile pf absolutePath of
           Inl e \<Rightarrow> Inl e
         | Inr file \<Rightarrow>
             (case toDataUrl pf absolutePath file of
                Inl e \<Rightarrow> Inl e
              | Inr url \<Rightarrow>
                  reference_images pf rest
                    (contents @
                     [InputText (''Reference '' @ img_id img @ '': '' @ img_label img
                                   @ (if truthy (img_caption img)
                                      then caption_separator
                                             @ (case img_caption img of Some t \<Rightarrow> t | None \<Rightarrow> [])
                                      else [])),
                      InputImage url
                        (case img_detail img of None \<Rightarrow> ''high'' | Some d \<Rightarrow> d)])))"

definition buildImageInputs ::
  "platform \<Rightarrow> schematicConfig \<Rightarrow> pstate \<Rightarrow> upload list
     \<Rightarrow> pstate \<times> (error + content list \<times> summary list)" where
  "buildImageInputs pf cfg st uploadPayloads =
     (case normalizeUploads pf uploadPayloads of
        Inl e \<Rightarrow> (st, Inl e)
      | Inr normalizedUploads \<Rightarrow>
          (case reference_images pf (images cfg) [] of
             Inl e \<Rightarrow> (st, Inl e)
           | Inr contents \<Rightarrow> deliver_all pf st normalizedUploads contents []))"

subsection \<open>The response\<close>

text \<open>
  \<^verbatim>\<open>POST\<close> once the request is parsed into the trimmed question and the upload payloads.
  The usage counters and the cost estimate are taken from the model's answer as they are
  and are not part of the body kept here.
\<close>

record success_body =
  r_output :: string
  r_model :: string
  r_uploadsAttached :: nat
  r_uploadSummaries :: "summary list"

datatype response = JsonError string "string option" nat | JsonOk success_body

definition is_input_image :: "content \<Rightarrow> bool" where
  "is_input_image item = (case item of InputImage u d \<Rightarrow> True | InputText t \<Rightarrow> False)"

definition POST ::
  "platform \<Rightarrow> schematicConfig \<Rightarrow> pstate \<Rightarrow> string \<Rightarrow> upload list \<Rightarrow> pstate \<times> response" where
  "POST pf cfg st question uploadPayloads =
     (if \<not> OPENAI_API_KEY pf
      then (st, JsonError ''OPENAI_API_KEY is not configured on the server.'' None 500)
      else if question = [] then (st, JsonError ''Prompt is required.'' None 400)
      else
        (let model = (case OPENAI_VISION_MODEL pf of None \<Rightarrow> model_name cfg | Some m \<Rightarrow> m)
         in case buildImageInputs pf cfg st uploadPayloads of
              (st', Inl (Error m)) \<Rightarrow>
                (st'\<lparr>console := console st' @ [ConsoleError ''Vision request failed'' (Error m) []]\<rparr>,
                 JsonError ''Vision request failed.'' (Some m) 500)
            | (st', Inr (imageInputs, uploadSummaries)) \<Rightarrow>
                (case responses_create pf model question imageInputs of
                   Inl (Error m) \<Rightarrow>
                     (st'\<lparr>console := console st' @
                            [ConsoleError ''Vision request failed'' (Error m) []]\<rparr>,
                      JsonError ''Vision request failed.'' (Some m) 500)
                 | Inr text \<Rightarrow>
                     (st', JsonOk \<lparr> r_output = text, r_model = model,
                                    r_uploadsAttached =
                                      length (filter is_input_image imageInputs),
                                    r_uploadSummaries = uploadSummaries \<rparr>))))"


section \<open>A platform for concrete runs\<close>

text \<open>
  \<^verbatim>\<open>path.extname\<close> as documented for POSIX paths: the extension of the last path
  component starts at its last dot; a component without a dot, one whose only dot comes
  first, and the component \<^verbatim>\<open>..\<close> have the empty extension.
\<close>

definition posix_extname :: "string \<Rightarrow> string" where
  "posix_extname p =
     (let base = rev (takeWhile (\<lambda>c. \<not> is_slash c) (dropWhile is_slash (rev p)));
          after = rev (takeWhile (\<lambda>c. c \<noteq> CHR ''.'') (rev base));
          stem = take (length base - length after - 1) base
      in if CHR ''.'' \<notin> set base \<or> stem = [] \<or> base = ''..'' then []
         else CHR ''.'' # after)"

text \<open>A store that accepts every object and signs every key, and a model that answers.\<close>

definition example_platform :: platform where
  "example_platform =
     \<lparr> extname = posix_extname,
       path_join = join ''/'',
       cwd = ''/app'',
       readFile = (\<lambda>p. Inr [137, 80, 78, 71]),
       s3Client = True,
       AWS_UPLOAD_PREFIX = ''vision-uploads'',
       AWS_SCHEMATICS_FOLDER = ''schematics'',
       randomUUID = (\<lambda>n. ''uuid-'' @ show_nat n),
       putObject = (\<lambda>key body contentType. None),
       getSignedUrl = (\<lambda>key. Inr (''https://bucket.example/'' @ key @ ''?sig'')),
       OPENAI_API_KEY = True,
       OPENAI_VISION_MODEL = None,
       responses_create = (\<lambda>model question contents. Inr ''answer'') \<rparr>"

definition empty_upload :: upload where
  "empty_upload =
     \<lparr> u_name = None, u_detail = None, u_dataUrl = JUndefined, u_url = JUndefined,
       u_s3Key = JUndefined, u_blobPathname = JUndefined, u_blobPath = JUndefined,
       u_buffer = JUndefined, u_bytes = JUndefined, u_size = JUndefined,
       u_mimeType = JUndefined, u_type = JUndefined \<rparr>"

definition start_state :: pstate where
  "start_state = \<lparr> uuid_calls = 0, console = [], s3_objects = [] \<rparr>"


subsection \<open>Requests, uploads and platforms of the concrete runs\<close>

text \<open>
  Descriptors are built from \<open>empty_upload\<close>, which has no field set. The platforms are
  variants of \<open>example_platform\<close>: without a store, with a store that refuses every put,
  and with a signer that throws.
\<close>

definition url_upload :: "string \<Rightarrow> upload" where
  "url_upload u = empty_upload\<lparr>u_url := JString u\<rparr>"

definition seven_uploads :: "upload list" where
  "seven_uploads =
     [url_upload ''https://a/1'', url_upload ''https://a/2'', url_upload ''https://a/3'',
      url_upload ''https://a/4'', url_upload ''https://a/5'', url_upload ''https://a/6'',
      empty_upload]"

definition six_uploads :: "upload list" where
  "six_uploads =
     [url_upload ''https://a/1'', url_upload ''https://a/2'', url_upload ''https://a/3'',
      url_upload ''https://a/4'', url_upload ''https://a/5'', url_upload ''https://a/6'']"

definition oversized_upload :: upload where
  "oversized_upload = empty_upload\<lparr>u_buffer := JBuffer (replicate 47185921 0)\<rparr>"

definition larger_upload :: upload where
  "larger_upload = empty_upload\<lparr>u_buffer := JBuffer (replicate 50000000 0)\<rparr>"

definition no_store_platform :: platform where
  "no_store_platform = example_platform\<lparr>s3Client := False\<rparr>"

definition all_sources_upload :: upload where
  "all_sources_upload =
     empty_upload\<lparr>u_name := Some ''plan.png'', u_buffer := JBuffer [1, 2, 3],
       u_dataUrl := JString ''data:image/png;base64,AAAA'',
       u_url := JString ''https://a/1'', u_s3Key := JString ''k/plan.png''\<rparr>"

definition all_sources_normalized :: normalized where
  "all_sources_normalized =
     \<lparr> n_id = ''upload-1'', n_name = ''plan.png'', n_detail = ''high'',
       n_buffer = Some [1, 2, 3], n_mimeType = Some ''image/png'', n_bytes = Some 3,
       n_dataUrl = Some ''data:image/png;base64,AAAA'', n_blobPathname = None,
       n_remoteUrl = None, n_s3Key = None \<rparr>"

definition conflicting_mime_upload :: upload where
  "conflicting_mime_upload =
     empty_upload\<lparr>u_name := Some ''plan.png'', u_buffer := JBuffer [1, 2, 3],
       u_mimeType := JString ''image/jpeg''\<rparr>"

definition generated_upload :: upload where
  "generated_upload =
     empty_upload\<lparr>u_dataUrl := JString (bufferToDataUrl [1, 2, 3] (Some ''image/png''))\<rparr>"


definition no_images :: schematicConfig where
  "no_images = \<lparr> images = [], model_name = ''gpt-4.1'' \<rparr>"



definition failing_store_platform :: platform where
  "failing_store_platform =
     example_platform\<lparr>putObject := (\<lambda>key body contentType. Some (Error ''AccessDenied''))\<rparr>"

definition failing_signer_platform :: platform where
  "failing_signer_platform =
     example_platform\<lparr>getSignedUrl := (\<lambda>key. Inl (Error ''CredentialsProviderError''))\<rparr>"

definition key_upload :: upload where
  "key_upload = empty_upload\<lparr>u_name := Some ''plan.png'', u_s3Key := JString ''/plans/plan.png/''\<rparr>"

definition key_normalized :: normalized where
  "key_normalized =
     \<lparr> n_id = ''upload-2'', n_name = ''plan.png'', n_detail = ''high'',
       n_buffer = None, n_mimeType = None, n_bytes = None,
       n_dataUrl = None, n_blobPathname = None,
       n_remoteUrl = None, n_s3Key = Some ''plans/plan.png'' \<rparr>"

definition buffer_normalized :: normalized where
  "buffer_normalized =
     \<lparr> n_id = ''upload-1'', n_name = ''plan.png'', n_detail = ''high'',
       n_buffer = Some [1, 2, 3], n_mimeType = Some ''image/png'', n_bytes = Some 3,
       n_dataUrl = None, n_blobPathname = None,
       n_remoteUrl = None, n_s3Key = None \<rparr>"


definition named_buffer_upload :: upload where
  "named_buffer_upload = empty_upload\<lparr>u_name := Some ''A'', u_buffer := JBuffer [1, 2, 3]\<rparr>"

definition named_url_upload :: upload where
  "named_url_upload = empty_upload\<lparr>u_name := Some ''B'', u_url := JString ''https://cdn.example/b.png''\<rparr>"

definition named_key_upload :: upload where
  "named_key_upload = empty_upload\<lparr>u_name := Some ''C'', u_s3Key := JString ''plans/c.png''\<rparr>"

definition three_contents :: "content list" where
  "three_contents =
     [InputText ''Uploaded upload-1: A'',
      InputImage ''data:application/octet-stream;base64,AQID'' ''high'',
      InputText ''Uploaded upload-2: B'',
      InputImage ''https://cdn.example/b.png'' ''high'',
      InputText ''Uploaded upload-3: C'',
      InputImage ''https://bucket.example/plans/c.png?sig'' ''high'']"

definition one_image :: schematicConfig where
  "one_image =
     \<lparr> images = [\<lparr> img_id = ''L1'', img_label = ''Level 1'', img_caption = None,
                    img_path = ''/plans/level1.png'', img_detail = None \<rparr>],
       model_name = ''gpt-4.1'' \<rparr>"

text \<open>The blocks of a list of uploads, each with its image reference.\<close>

abbreviation pair_blocks :: "normalized list \<Rightarrow> string list \<Rightarrow> content list" where
  "pair_blocks ns urls \<equiv> concat (map (\<lambda>(n, url). upload_blocks n url) (zip ns urls))"

section \<open>Properties of the normalizer\<close>

lemma map_from_length: "map_from pf i us = Inr ns \<Longrightarrow> length ns = length us"
  by (induction us arbitrary: i ns) (auto split: sum.splits)

text \<open>
  Claim C6. Whatever the length of the input list, a normalization that returns gives at
  most \<open>MAX_UPLOAD_COUNT = 6\<close> uploads, namely as many as the input has, up to six. The
  descriptors after the sixth do not take part: the result, an error or a list, is the one
  of the first six alone, so an extra descriptor is dropped and never reported.
\<close>

theorem C6_truncation:
  "normalizeUploads pf uploads = normalizeUploads pf (take MAX_UPLOAD_COUNT uploads)
   \<and> (\<forall>ns. normalizeUploads pf uploads = Inr ns \<longrightarrow>
          length ns = min (length uploads) MAX_UPLOAD_COUNT \<and> length ns \<le> 6)"
proof -
  have same: "normalizeUploads pf uploads = normalizeUploads pf (take MAX_UPLOAD_COUNT uploads)"
    by (simp add: normalizeUploads_def MAX_UPLOAD_COUNT_def)
  have len: "length ns = min (length uploads) MAX_UPLOAD_COUNT \<and> length ns \<le> 6"
    if "normalizeUploads pf uploads = Inr ns" for ns
  proof (cases "uploads = []")
    case True
    with that show ?thesis by (simp add: normalizeUploads_def)
  next
    case False
    with that have "map_from pf 0 (take MAX_UPLOAD_COUNT uploads) = Inr ns"
      by (simp add: normalizeUploads_def)
    then have "length ns = length (take MAX_UPLOAD_COUNT uploads)"
      by (rule map_from_length)
    then show ?thesis by (simp add: MAX_UPLOAD_COUNT_def)
  qed
  from same len show ?thesis by blast
qed

text \<open>Seven descriptors, the seventh without any source: six uploads come back.\<close>

theorem C6_truncation_witness:
  "length seven_uploads = 7
   \<and> (\<exists>ns. normalizeUploads example_platform seven_uploads = Inr ns \<and> length ns = 6)
   \<and> isl (normalizeUploads example_platform [empty_upload])"
proof -
  have run: "\<not> isl (normalizeUploads example_platform seven_uploads)"
    by code_simp
  have alone: "isl (normalizeUploads example_platform [empty_upload])"
    by code_simp
  have seven: "length seven_uploads = 7"
    by (simp add: seven_uploads_def)
  from run obtain ns where ns: "normalizeUploads example_platform seven_uploads = Inr ns"
    by (cases "normalizeUploads example_platform seven_uploads") auto
  with C6_truncation [of example_platform seven_uploads] seven
  have "length ns = 6" by (simp add: MAX_UPLOAD_COUNT_def)
  with ns seven alone show ?thesis by blast
qed


subsection \<open>Rejection\<close>

lemma isl_map_from:
  "isl (map_from pf k us) \<longleftrightarrow> (\<exists>j<length us. isl (normalizeUpload pf (k + j) (us ! j)))"
proof (induction us arbitrary: k)
  case Nil
  then show ?case by simp
next
  case (Cons u us)
  show ?case
  proof (cases "normalizeUpload pf k u")
    case (Inl e)
    then have "isl (normalizeUpload pf (k + 0) ((u # us) ! 0))" by simp
    then have "\<exists>j<length (u # us). isl (normalizeUpload pf (k + j) ((u # us) ! j))"
      by (intro exI[of _ 0]) simp
    with Inl show ?thesis by simp
  next
    case (Inr n)
    have "isl (map_from pf k (u # us)) \<longleftrightarrow> isl (map_from pf (Suc k) us)"
      using Inr by (simp split: sum.splits)
    also have "\<dots> \<longleftrightarrow> (\<exists>j<length us. isl (normalizeUpload pf (Suc k + j) (us ! j)))"
      by (rule Cons.IH)
    also have "\<dots> \<longleftrightarrow> (\<exists>j<length (u # us). isl (normalizeUpload pf (k + j) ((u # us) ! j)))"
    proof
      assume "\<exists>j<length us. isl (normalizeUpload pf (Suc k + j) (us ! j))"
      then obtain j where "j < length us" "isl (normalizeUpload pf (Suc k + j) (us ! j))" by blast
      then have "Suc j < length (u # us) \<and> isl (normalizeUpload pf (k + Suc j) ((u # us) ! Suc j))"
        by simp
      then show "\<exists>j<length (u # us). isl (normalizeUpload pf (k + j) ((u # us) ! j))" by blast
    next
      assume "\<exists>j<length (u # us). isl (normalizeUpload pf (k + j) ((u # us) ! j))"
      then obtain j where j: "j < length (u # us)" "isl (normalizeUpload pf (k + j) ((u # us) ! j))"
        by blast
      with Inr obtain j' where "j = Suc j'" by (cases j) auto
      with j have "j' < length us \<and> isl (normalizeUpload pf (Suc k + j') (us ! j'))" by simp
      then show "\<exists>j<length us. isl (normalizeUpload pf (Suc k + j) (us ! j))" by blast
    qed
    finally show ?thesis .
  qed
qed

lemma isl_normalizeUploads:
  "isl (normalizeUploads pf us) \<longleftrightarrow>
     (\<exists>j. j < length us \<and> j < MAX_UPLOAD_COUNT \<and> isl (normalizeUpload pf j (us ! j)))"
proof (cases "us = []")
  case True
  then show ?thesis by (simp add: normalizeUploads_def)
next
  case False
  then have "isl (normalizeUploads pf us) \<longleftrightarrow> isl (map_from pf 0 (take MAX_UPLOAD_COUNT us))"
    by (simp add: normalizeUploads_def)
  also have "\<dots> \<longleftrightarrow> (\<exists>j<length (take MAX_UPLOAD_COUNT us).
                      isl (normalizeUpload pf (0 + j) (take MAX_UPLOAD_COUNT us ! j)))"
    by (rule isl_map_from)
  also have "\<dots> \<longleftrightarrow> (\<exists>j. j < length us \<and> j < MAX_UPLOAD_COUNT \<and> isl (normalizeUpload pf j (us ! j)))"
    by auto
  finally show ?thesis .
qed

lemma buffer_upload_cases:
  assumes "bufferCandidate u = Some buf"
  shows "isl (normalizeUpload pf i u) \<longleftrightarrow> bytes_of u buf > of_nat MAX_UPLOAD_BYTES"
  using assms by (simp add: normalizeUpload_def Let_def)

lemma buffer_upload_error:
  assumes "bufferCandidate u = Some buf" "bytes_of u buf > of_nat MAX_UPLOAD_BYTES"
  shows "normalizeUpload pf i u = Inl (Error (limit_message i u))"
  using assms by (simp add: normalizeUpload_def Let_def)

lemma normalizeUploads_take:
  "normalizeUploads pf uploads = normalizeUploads pf (take MAX_UPLOAD_COUNT uploads)"
  by (simp add: normalizeUploads_def MAX_UPLOAD_COUNT_def)

lemma oversized_facts:
  "bufferCandidate oversized_upload = Some (replicate 47185921 0)"
  "bytes_of oversized_upload (replicate 47185921 0) > of_nat MAX_UPLOAD_BYTES"
  "bufferCandidate larger_upload = Some (replicate 50000000 0)"
  "bytes_of oversized_upload (replicate 47185921 0) \<le> bytes_of larger_upload (replicate 50000000 0)"
  by (simp_all add: oversized_upload_def larger_upload_def empty_upload_def bufferCandidate_def bytes_of_def
        reportedBytes_def MAX_UPLOAD_BYTES_def)

lemma six_ok: "\<not> isl (normalizeUploads example_platform six_uploads)"
  by code_simp

text \<open>
  A request of seven uploads whose seventh carries a buffer of 47185921 bytes, one more
  than the cap, is normalized without an error: the seventh descriptor is cut off before
  its size is looked at.
\<close>

theorem C2_counterexample:
  "bufferCandidate oversized_upload = Some (replicate 47185921 0)
   \<and> bytes_of oversized_upload (replicate 47185921 0) > of_nat MAX_UPLOAD_BYTES
   \<and> \<not> isl (normalizeUploads example_platform (six_uploads @ [oversized_upload]))"
proof -
  have "take MAX_UPLOAD_COUNT (six_uploads @ [oversized_upload]) = six_uploads"
    by (simp add: six_uploads_def MAX_UPLOAD_COUNT_def)
  then have "normalizeUploads example_platform (six_uploads @ [oversized_upload])
               = normalizeUploads example_platform six_uploads"
    using normalizeUploads_take [of example_platform "six_uploads @ [oversized_upload]"]
          normalizeUploads_take [of example_platform six_uploads]
    by (simp add: six_uploads_def MAX_UPLOAD_COUNT_def)
  with six_ok oversized_facts show ?thesis by simp
qed

text \<open>
  Claim C2. Among the descriptors that normalization keeps (the first six), an upload that
  resolves to a buffer and whose size is above \<open>MAX_UPLOAD_BYTES\<close> (45 MB) makes the
  callback throw the size-limit error, and with it the whole normalization. The size is
  \<open>bytes_of\<close>: the declared \<^verbatim>\<open>bytes\<close> or \<^verbatim>\<open>size\<close> when that is a finite number, the
  length of the buffer otherwise. Rejection is monotonic: when the upload at a position is
  replaced by a buffer upload of the same or a larger size, a rejected request stays
  rejected.
\<close>

theorem C2_oversize_rejected:
  assumes i: "i < length uploads"
    and buf: "bufferCandidate (uploads ! i) = Some buf"
    and buf': "bufferCandidate u' = Some buf'"
    and le: "bytes_of (uploads ! i) buf \<le> bytes_of u' buf'"
  shows "(i < MAX_UPLOAD_COUNT \<and> bytes_of (uploads ! i) buf > of_nat MAX_UPLOAD_BYTES \<longrightarrow>
            normalizeUpload pf i (uploads ! i) = Inl (Error (limit_message i (uploads ! i)))
            \<and> isl (normalizeUploads pf uploads))
         \<and> (isl (normalizeUploads pf uploads) \<longrightarrow> isl (normalizeUploads pf (uploads[i := u'])))"
proof (intro conjI impI)
  assume a: "i < MAX_UPLOAD_COUNT \<and> bytes_of (uploads ! i) buf > of_nat MAX_UPLOAD_BYTES"
  with buf show "normalizeUpload pf i (uploads ! i) = Inl (Error (limit_message i (uploads ! i)))"
    by (simp add: buffer_upload_error)
  then have "isl (normalizeUpload pf i (uploads ! i))" by simp
  with i a show "isl (normalizeUploads pf uploads)"
    unfolding isl_normalizeUploads by blast
next
  assume "isl (normalizeUploads pf uploads)"
  then obtain j where j: "j < length uploads" "j < MAX_UPLOAD_COUNT"
      "isl (normalizeUpload pf j (uploads ! j))"
    unfolding isl_normalizeUploads by blast
  show "isl (normalizeUploads pf (uploads[i := u']))"
  proof (cases "j = i")
    case True
    with j buf have "bytes_of (uploads ! i) buf > of_nat MAX_UPLOAD_BYTES"
      by (simp add: buffer_upload_cases)
    with le have "bytes_of u' buf' > of_nat MAX_UPLOAD_BYTES" by simp
    with buf' have "isl (normalizeUpload pf i u')" by (simp add: buffer_upload_cases)
    with i have "isl (normalizeUpload pf i (uploads[i := u'] ! i))" by simp
    with True j i show ?thesis unfolding isl_normalizeUploads
      by (intro exI[of _ i]) simp
  next
    case False
    with j have "isl (normalizeUpload pf j (uploads[i := u'] ! j))" by simp
    with j show ?thesis unfolding isl_normalizeUploads
      by (intro exI[of _ j]) simp
  qed
qed

text \<open>A buffer of 47185921 bytes in second place, and a larger one in its place.\<close>

theorem C2_oversize_rejected_witness:
  "isl (normalizeUploads example_platform [url_upload ''https://a/1'', oversized_upload])
   \<and> isl (normalizeUploads example_platform [url_upload ''https://a/1'', larger_upload])"
proof -
  let ?us = "[url_upload ''https://a/1'', oversized_upload]"
  have h1: "1 < length ?us" by simp
  have h2: "bufferCandidate (?us ! 1) = Some (replicate 47185921 0)"
    by (simp add: oversized_facts)
  have h4: "bytes_of (?us ! 1) (replicate 47185921 0) \<le> bytes_of larger_upload (replicate 50000000 0)"
    by (simp add: oversized_facts)
  have h5: "(1::nat) < MAX_UPLOAD_COUNT \<and> bytes_of (?us ! 1) (replicate 47185921 0) > of_nat MAX_UPLOAD_BYTES"
    by (simp add: oversized_facts MAX_UPLOAD_COUNT_def)
  from C2_oversize_rejected [OF h1 h2 oversized_facts(3) h4, of example_platform] h5
  show ?thesis by simp
qed

subsection \<open>Source priority\<close>

lemma erase_lower_buffer:
  "bufferCandidate (u\<lparr>u_url := a, u_s3Key := b\<rparr>) = bufferCandidate u"
  "dataUrl_of (u\<lparr>u_url := a, u_s3Key := b\<rparr>) = dataUrl_of u"
  "name_of i (u\<lparr>u_url := a, u_s3Key := b\<rparr>) = name_of i u"
  "detail_of (u\<lparr>u_url := a, u_s3Key := b\<rparr>) = detail_of u"
  "blobPathname_of (u\<lparr>u_url := a, u_s3Key := b\<rparr>) = blobPathname_of u"
  "bytes_of (u\<lparr>u_url := a, u_s3Key := b\<rparr>) buf = bytes_of u buf"
  "explicitMime (u\<lparr>u_url := a, u_s3Key := b\<rparr>) = explicitMime u"
  "limit_message i (u\<lparr>u_url := a, u_s3Key := b\<rparr>) = limit_message i u"
  by (simp_all add: bufferCandidate_def dataUrl_of_def name_of_def detail_of_def
        blobPathname_of_def bytes_of_def reportedBytes_def explicitMime_def limit_message_def
        cong: jsval.case_cong jsnum.case_cong)

lemma erase_key:
  "bufferCandidate (u\<lparr>u_s3Key := b\<rparr>) = bufferCandidate u"
  "dataUrl_of (u\<lparr>u_s3Key := b\<rparr>) = dataUrl_of u"
  "remoteUrl_of (u\<lparr>u_s3Key := b\<rparr>) = remoteUrl_of u"
  "name_of i (u\<lparr>u_s3Key := b\<rparr>) = name_of i u"
  "detail_of (u\<lparr>u_s3Key := b\<rparr>) = detail_of u"
  "blobPathname_of (u\<lparr>u_s3Key := b\<rparr>) = blobPathname_of u"
  "reportedBytes (u\<lparr>u_s3Key := b\<rparr>) = reportedBytes u"
  "explicitMime (u\<lparr>u_s3Key := b\<rparr>) = explicitMime u"
  by (simp_all add: bufferCandidate_def dataUrl_of_def remoteUrl_of_def name_of_def detail_of_def
        blobPathname_of_def reportedBytes_def explicitMime_def
        cong: jsval.case_cong jsnum.case_cong)

lemma buffer_branch:
  assumes "bufferCandidate u = Some buf"
  shows "normalizeUpload pf i u =
     (if bytes_of u buf > of_nat MAX_UPLOAD_BYTES then Inl (Error (limit_message i u))
      else Inr \<lparr> n_id = ''upload-'' @ show_nat (i + 1), n_name = name_of i u,
                 n_detail = detail_of u, n_buffer = Some buf,
                 n_mimeType =
                   Some (case explicitMime u of
                           Some m \<Rightarrow> m
                         | None \<Rightarrow> (case MIME_LOOKUP (toLowerCase (extname pf (name_of i u))) of
                                     Some m \<Rightarrow> m
                                   | None \<Rightarrow> ''application/octet-stream'')),
                 n_bytes = Some (bytes_of u buf),
                 n_dataUrl = (if dataUrl_of u = [] then None else Some (dataUrl_of u)),
                 n_blobPathname = blobPathname_of u,
                 n_remoteUrl = None, n_s3Key = None \<rparr>)"
  unfolding normalizeUpload_def Let_def using assms by simp

lemma data_url_branch:
  assumes "bufferCandidate u = None" "dataUrl_of u \<noteq> []"
  shows "normalizeUpload pf i u =
     (case match_data_url (dataUrl_of u) of
        None \<Rightarrow> Inl (Error (data_url_message i))
      | Some (mime, data) \<Rightarrow>
          if length (base64_decode data) > MAX_UPLOAD_BYTES
          then Inl (Error (limit_message i u))
          else Inr \<lparr> n_id = ''upload-'' @ show_nat (i + 1), n_name = name_of i u,
                     n_detail = detail_of u, n_buffer = Some (base64_decode data),
                     n_mimeType = Some (toLowerCase mime),
                     n_bytes = Some (of_nat (length (base64_decode data))),
                     n_dataUrl = Some (dataUrl_of u),
                     n_blobPathname = blobPathname_of u,
                     n_remoteUrl = None, n_s3Key = None \<rparr>)"
  unfolding normalizeUpload_def Let_def using assms by simp

lemma remote_url_branch:
  assumes "bufferCandidate u = None" "dataUrl_of u = []" "remoteUrl_of u \<noteq> []"
  shows "normalizeUpload pf i u =
     Inr \<lparr> n_id = ''upload-'' @ show_nat (i + 1), n_name = name_of i u,
           n_detail = detail_of u, n_buffer = None, n_mimeType = explicitMime u,
           n_bytes = reportedBytes u, n_dataUrl = None,
           n_blobPathname = blobPathname_of u,
           n_remoteUrl = Some (remoteUrl_of u), n_s3Key = None \<rparr>"
  unfolding normalizeUpload_def Let_def using assms by simp

lemma key_branch:
  assumes "bufferCandidate u = None" "dataUrl_of u = []" "remoteUrl_of u = []"
  shows "normalizeUpload pf i u =
     (if truthy (s3Key_of u) then
        Inr \<lparr> n_id = ''upload-'' @ show_nat (i + 1), n_name = name_of i u,
              n_detail = detail_of u, n_buffer = None, n_mimeType = explicitMime u,
              n_bytes = reportedBytes u, n_dataUrl = None,
              n_blobPathname = blobPathname_of u,
              n_remoteUrl = None, n_s3Key = s3Key_of u \<rparr>
      else Inl (Error (source_message (name_of i u))))"
  unfolding normalizeUpload_def Let_def using assms
  by (cases "s3Key_of u") (simp_all add: truthy_def)

lemma buffer_wins:
  assumes "bufferCandidate u = Some buf"
  shows "normalizeUpload pf i u = normalizeUpload pf i (u\<lparr>u_url := JUndefined, u_s3Key := JUndefined\<rparr>)"
    and "normalizeUpload pf i u = Inr n \<Longrightarrow>
           n_buffer n = Some buf \<and> n_remoteUrl n = None \<and> n_s3Key n = None
           \<and> n_dataUrl n = (if dataUrl_of u = [] then None else Some (dataUrl_of u))"
proof -
  let ?v = "u\<lparr>u_url := JUndefined, u_s3Key := JUndefined\<rparr>"
  have "bufferCandidate ?v = Some buf" using assms by (simp add: erase_lower_buffer)
  from buffer_branch [OF this, of pf i] buffer_branch [OF assms, of pf i]
  show "normalizeUpload pf i u = normalizeUpload pf i ?v"
    by (simp only: erase_lower_buffer)
next
  assume ok: "normalizeUpload pf i u = Inr n"
  show "n_buffer n = Some buf \<and> n_remoteUrl n = None \<and> n_s3Key n = None
           \<and> n_dataUrl n = (if dataUrl_of u = [] then None else Some (dataUrl_of u))"
  proof (cases "bytes_of u buf > of_nat MAX_UPLOAD_BYTES")
    case True
    then have "normalizeUpload pf i u = Inl (Error (limit_message i u))"
      by (simp add: buffer_branch [OF assms])
    with ok show ?thesis by simp
  next
    case False
    then have "normalizeUpload pf i u =
        Inr \<lparr> n_id = ''upload-'' @ show_nat (i + 1), n_name = name_of i u,
                 n_detail = detail_of u, n_buffer = Some buf,
                 n_mimeType =
                   Some (case explicitMime u of
                           Some m \<Rightarrow> m
                         | None \<Rightarrow> (case MIME_LOOKUP (toLowerCase (extname pf (name_of i u))) of
                                     Some m \<Rightarrow> m
                                   | None \<Rightarrow> ''application/octet-stream'')),
                 n_bytes = Some (bytes_of u buf),
                 n_dataUrl = (if dataUrl_of u = [] then None else Some (dataUrl_of u)),
                 n_blobPathname = blobPathname_of u,
                 n_remoteUrl = None, n_s3Key = None \<rparr>" (is "_ = Inr ?r")
      by (simp add: buffer_branch [OF assms])
    with ok have "n = ?r" by simp
    then show ?thesis by simp
  qed
qed

lemma data_url_wins:
  assumes "bufferCandidate u = None" "dataUrl_of u \<noteq> []"
  shows "normalizeUpload pf i u = normalizeUpload pf i (u\<lparr>u_url := JUndefined, u_s3Key := JUndefined\<rparr>)"
    and "normalizeUpload pf i u = Inr n \<Longrightarrow>
           n_dataUrl n = Some (dataUrl_of u)
           \<and> (\<exists>mime data. match_data_url (dataUrl_of u) = Some (mime, data)
                  \<and> n_buffer n = Some (base64_decode data))
           \<and> n_remoteUrl n = None \<and> n_s3Key n = None"
proof -
  let ?v = "u\<lparr>u_url := JUndefined, u_s3Key := JUndefined\<rparr>"
  have "bufferCandidate ?v = None" "dataUrl_of ?v \<noteq> []"
    using assms by (simp_all add: erase_lower_buffer)
  from data_url_branch [OF this, of pf i] data_url_branch [OF assms, of pf i]
  show "normalizeUpload pf i u = normalizeUpload pf i ?v"
    by (simp only: erase_lower_buffer)
next
  assume ok: "normalizeUpload pf i u = Inr n"
  show "n_dataUrl n = Some (dataUrl_of u)
           \<and> (\<exists>mime data. match_data_url (dataUrl_of u) = Some (mime, data)
                  \<and> n_buffer n = Some (base64_decode data))
           \<and> n_remoteUrl n = None \<and> n_s3Key n = None"
  proof (cases "match_data_url (dataUrl_of u)")
    case None
    with ok data_url_branch [OF assms, of pf i] show ?thesis by simp
  next
    case (Some md)
    obtain mime data where md: "md = (mime, data)" by (cases md)
    show ?thesis
    proof (cases "length (base64_decode data) > MAX_UPLOAD_BYTES")
      case True
      with Some md have "normalizeUpload pf i u = Inl (Error (limit_message i u))"
        by (simp add: data_url_branch [OF assms])
      with ok show ?thesis by simp
    next
      case False
      with Some md have "normalizeUpload pf i u =
          Inr \<lparr> n_id = ''upload-'' @ show_nat (i + 1), n_name = name_of i u,
                     n_detail = detail_of u, n_buffer = Some (base64_decode data),
                     n_mimeType = Some (toLowerCase mime),
                     n_bytes = Some (of_nat (length (base64_decode data))),
                     n_dataUrl = Some (dataUrl_of u),
                     n_blobPathname = blobPathname_of u,
                     n_remoteUrl = None, n_s3Key = None \<rparr>" (is "_ = Inr ?r")
        by (simp add: data_url_branch [OF assms])
      with ok have "n = ?r" by simp
      with Some md show ?thesis by simp
    qed
  qed
qed

lemma remote_url_wins:
  assumes "bufferCandidate u = None" "dataUrl_of u = []" "remoteUrl_of u \<noteq> []"
  shows "normalizeUpload pf i u = normalizeUpload pf i (u\<lparr>u_s3Key := JUndefined\<rparr>)"
    and "\<exists>n. normalizeUpload pf i u = Inr n \<and> n_remoteUrl n = Some (remoteUrl_of u)
             \<and> n_buffer n = None \<and> n_dataUrl n = None \<and> n_s3Key n = None"
proof -
  let ?v = "u\<lparr>u_s3Key := JUndefined\<rparr>"
  have "bufferCandidate ?v = None" "dataUrl_of ?v = []" "remoteUrl_of ?v \<noteq> []"
    using assms by (simp_all add: erase_key)
  from remote_url_branch [OF this, of pf i] remote_url_branch [OF assms, of pf i]
  show "normalizeUpload pf i u = normalizeUpload pf i ?v"
    by (simp only: erase_key)
next
  show "\<exists>n. normalizeUpload pf i u = Inr n \<and> n_remoteUrl n = Some (remoteUrl_of u)
             \<and> n_buffer n = None \<and> n_dataUrl n = None \<and> n_s3Key n = None"
    by (simp add: remote_url_branch [OF assms])
qed

lemma key_last:
  assumes "bufferCandidate u = None" "dataUrl_of u = []" "remoteUrl_of u = []"
  shows "truthy (s3Key_of u) \<Longrightarrow>
           \<exists>n. normalizeUpload pf i u = Inr n \<and> n_s3Key n = s3Key_of u
             \<and> n_buffer n = None \<and> n_dataUrl n = None \<and> n_remoteUrl n = None"
    and "\<not> truthy (s3Key_of u) \<Longrightarrow>
           normalizeUpload pf i u = Inl (Error (source_message (name_of i u)))"
  by (simp_all add: key_branch [OF assms])

text \<open>
  Claim C3. The callback resolves the source of a descriptor in the order buffer, data URL,
  remote URL, storage key, and the first that resolves decides the branch. A buffer or a
  data URL makes the remote URL and the storage key irrelevant (the result is the one of
  the descriptor without them, and the normalized upload carries neither); a remote URL
  does so for the storage key. One lower source is not ignored: a data URL given next to
  a buffer is kept, as it is, in the normalized upload. When none of the four resolves,
  the callback throws \<open>source_message\<close> with the display name of the item.
\<close>

theorem C3_source_priority:
  "(case bufferCandidate u of
      Some buf \<Rightarrow>
        normalizeUpload pf i u
          = normalizeUpload pf i (u\<lparr>u_url := JUndefined, u_s3Key := JUndefined\<rparr>)
        \<and> (\<forall>n. normalizeUpload pf i u = Inr n \<longrightarrow>
               n_buffer n = Some buf \<and> n_remoteUrl n = None \<and> n_s3Key n = None
               \<and> n_dataUrl n = (if dataUrl_of u = [] then None else Some (dataUrl_of u)))
    | None \<Rightarrow>
        if dataUrl_of u \<noteq> [] then
          normalizeUpload pf i u
            = normalizeUpload pf i (u\<lparr>u_url := JUndefined, u_s3Key := JUndefined\<rparr>)
          \<and> (\<forall>n. normalizeUpload pf i u = Inr n \<longrightarrow>
                 n_dataUrl n = Some (dataUrl_of u)
                 \<and> (\<exists>mime data. match_data_url (dataUrl_of u) = Some (mime, data)
                        \<and> n_buffer n = Some (base64_decode data))
                 \<and> n_remoteUrl n = None \<and> n_s3Key n = None)
        else if remoteUrl_of u \<noteq> [] then
          normalizeUpload pf i u = normalizeUpload pf i (u\<lparr>u_s3Key := JUndefined\<rparr>)
          \<and> (\<exists>n. normalizeUpload pf i u = Inr n \<and> n_remoteUrl n = Some (remoteUrl_of u)
                 \<and> n_buffer n = None \<and> n_dataUrl n = None \<and> n_s3Key n = None)
        else if truthy (s3Key_of u) then
          (\<exists>n. normalizeUpload pf i u = Inr n \<and> n_s3Key n = s3Key_of u
               \<and> n_buffer n = None \<and> n_dataUrl n = None \<and> n_remoteUrl n = None)
        else normalizeUpload pf i u = Inl (Error (source_message (name_of i u))))"
proof (cases "bufferCandidate u")
  case (Some buf)
  with buffer_wins [OF Some, of pf i] show ?thesis by simp
next
  case None
  show ?thesis
  proof (cases "dataUrl_of u \<noteq> []")
    case True
    with None data_url_wins [OF None True, of pf i] show ?thesis by simp
  next
    case nodata: False
    show ?thesis
    proof (cases "remoteUrl_of u \<noteq> []")
      case True
      with None nodata remote_url_wins [of u pf i] show ?thesis by simp
    next
      case False
      with None nodata key_last [of u pf i] show ?thesis by simp
    qed
  qed
qed

lemma all_sources_run:
  "normalizeUpload example_platform 0 all_sources_upload = Inr all_sources_normalized"
  by code_simp

lemma all_sources_candidate: "bufferCandidate all_sources_upload = Some [1, 2, 3]"
  by code_simp

text \<open>A descriptor with all four sources: the buffer wins, URL and key play no part.\<close>

theorem C3_source_priority_witness:
  "normalizeUpload example_platform 0 all_sources_upload = Inr all_sources_normalized
   \<and> normalizeUpload example_platform 0
        (all_sources_upload\<lparr>u_url := JUndefined, u_s3Key := JUndefined\<rparr>)
       = Inr all_sources_normalized
   \<and> n_buffer all_sources_normalized = Some [1, 2, 3]
   \<and> n_remoteUrl all_sources_normalized = None \<and> n_s3Key all_sources_normalized = None"
proof -
  have n: "n_buffer all_sources_normalized = Some [1, 2, 3]
           \<and> n_remoteUrl all_sources_normalized = None \<and> n_s3Key all_sources_normalized = None"
    by (simp add: all_sources_normalized_def)
  from C3_source_priority [of all_sources_upload example_platform 0]
  have "normalizeUpload example_platform 0 all_sources_upload
          = normalizeUpload example_platform 0
              (all_sources_upload\<lparr>u_url := JUndefined, u_s3Key := JUndefined\<rparr>)"
    by (simp add: all_sources_candidate)
  with all_sources_run n show ?thesis by simp
qed

text \<open>
  For the same descriptor the data URL is not ignored: it is on the normalized upload, the
  result differs from the one without it, and inline delivery hands the model that data
  URL (\<^verbatim>\<open>AAAA\<close>) and not the encoding of the buffer (\<^verbatim>\<open>AQID\<close>).
\<close>

theorem C3_counterexample:
  "bufferCandidate all_sources_upload = Some [1, 2, 3]
   \<and> normalizeUpload example_platform 0 all_sources_upload = Inr all_sources_normalized
   \<and> n_dataUrl all_sources_normalized = Some ''data:image/png;base64,AAAA''
   \<and> normalizeUpload example_platform 0 (all_sources_upload\<lparr>u_dataUrl := JUndefined\<rparr>)
        = Inr (all_sources_normalized\<lparr>n_dataUrl := None\<rparr>)
   \<and> snd (deliver no_store_platform start_state all_sources_normalized)
        = Inr (\<lparr> s_id = ''upload-1'', s_name = ''plan.png'', s_bytes = Some 3,
                  s_mimeType = Some ''image/png'', s_strategy = Some ''inline'',
                  s_url = None, s_key = None, s_blobPathname = None \<rparr>,
               [InputText ''Uploaded upload-1: plan.png'',
                InputImage ''data:image/png;base64,AAAA'' ''high''])
   \<and> bufferToDataUrl [1, 2, 3] (Some ''image/png'') = ''data:image/png;base64,AQID''"
  by code_simp

subsection \<open>MIME type\<close>

text \<open>
  Claim C8. For an upload that resolves to a buffer and passes the size check, the
  normalized MIME type is the explicit one when the descriptor has one (the \<^verbatim>\<open>mimeType\<close>
  field, else the \<^verbatim>\<open>type\<close> field, in lower case), whatever the display name says;
  without an explicit one it is the entry of \<open>MIME_LOOKUP\<close> for the lower-cased extension
  of the display name, and \<^verbatim>\<open>application/octet-stream\<close> when there is no entry.
\<close>

theorem C8_mime_priority:
  assumes "bufferCandidate u = Some buf" and "normalizeUpload pf i u = Inr n"
  shows "(\<forall>m. u_mimeType u = JString m \<longrightarrow> n_mimeType n = Some (toLowerCase m))
       \<and> (\<forall>t. (\<forall>m. u_mimeType u \<noteq> JString m) \<and> u_type u = JString t \<longrightarrow>
               n_mimeType n = Some (toLowerCase t))
       \<and> ((\<forall>m. u_mimeType u \<noteq> JString m) \<and> (\<forall>t. u_type u \<noteq> JString t) \<longrightarrow>
            n_mimeType n =
              Some (case MIME_LOOKUP (toLowerCase (extname pf (name_of i u))) of
                      Some m \<Rightarrow> m
                    | None \<Rightarrow> ''application/octet-stream''))"
proof -
  have "isl (normalizeUpload pf i u) \<longleftrightarrow> bytes_of u buf > of_nat MAX_UPLOAD_BYTES"
    using assms(1) by (rule buffer_upload_cases)
  with assms(2) have small: "\<not> bytes_of u buf > of_nat MAX_UPLOAD_BYTES" by simp
  have "normalizeUpload pf i u =
      Inr \<lparr> n_id = ''upload-'' @ show_nat (i + 1), n_name = name_of i u,
            n_detail = detail_of u, n_buffer = Some buf,
            n_mimeType =
              Some (case explicitMime u of
                      Some m \<Rightarrow> m
                    | None \<Rightarrow> (case MIME_LOOKUP (toLowerCase (extname pf (name_of i u))) of
                                Some m \<Rightarrow> m
                              | None \<Rightarrow> ''application/octet-stream'')),
            n_bytes = Some (bytes_of u buf),
            n_dataUrl = (if dataUrl_of u = [] then None else Some (dataUrl_of u)),
            n_blobPathname = blobPathname_of u,
            n_remoteUrl = None, n_s3Key = None \<rparr>" (is "_ = Inr ?r")
    using small by (simp add: buffer_branch [OF assms(1)])
  with assms(2) have "n = ?r" by simp
  then have mime: "n_mimeType n =
      Some (case explicitMime u of
              Some m \<Rightarrow> m
            | None \<Rightarrow> (case MIME_LOOKUP (toLowerCase (extname pf (name_of i u))) of
                        Some m \<Rightarrow> m
                      | None \<Rightarrow> ''application/octet-stream''))"
    by simp
  have e1: "explicitMime u = Some (toLowerCase m)" if "u_mimeType u = JString m" for m
    using that by (simp add: explicitMime_def)
  have e2: "explicitMime u = Some (toLowerCase t)"
    if "\<forall>m. u_mimeType u \<noteq> JString m" "u_type u = JString t" for t
    using that by (cases "u_mimeType u") (simp_all add: explicitMime_def)
  have e3: "explicitMime u = None"
    if "\<forall>m. u_mimeType u \<noteq> JString m" "\<forall>t. u_type u \<noteq> JString t"
    using that by (cases "u_mimeType u"; cases "u_type u") (simp_all add: explicitMime_def)
  from mime e1 e2 e3 show ?thesis by simp
qed

lemma conflicting_run:
  "normalizeUpload example_platform 0 conflicting_mime_upload =
     Inr \<lparr> n_id = ''upload-1'', n_name = ''plan.png'', n_detail = ''high'',
           n_buffer = Some [1, 2, 3], n_mimeType = Some ''image/jpeg'', n_bytes = Some 3,
           n_dataUrl = None, n_blobPathname = None, n_remoteUrl = None, n_s3Key = None \<rparr>"
  by code_simp

lemma conflicting_ext:
  "MIME_LOOKUP (toLowerCase (extname example_platform (name_of 0 conflicting_mime_upload)))
     = Some ''image/png''"
  by code_simp

text \<open>The name says PNG, the explicit field says JPEG: JPEG it is.\<close>

theorem C8_mime_priority_witness:
  "bufferCandidate conflicting_mime_upload = Some [1, 2, 3]
   \<and> u_mimeType conflicting_mime_upload = JString ''image/jpeg''
   \<and> MIME_LOOKUP (toLowerCase (extname example_platform (name_of 0 conflicting_mime_upload)))
        = Some ''image/png''
   \<and> (\<exists>n. normalizeUpload example_platform 0 conflicting_mime_upload = Inr n
          \<and> n_mimeType n = Some ''image/jpeg'')"
proof -
  have c: "bufferCandidate conflicting_mime_upload = Some [1, 2, 3]"
    by (simp add: conflicting_mime_upload_def empty_upload_def bufferCandidate_def)
  have m: "u_mimeType conflicting_mime_upload = JString ''image/jpeg''"
    by (simp add: conflicting_mime_upload_def empty_upload_def)
  have low: "toLowerCase ''image/jpeg'' = ''image/jpeg''"
    by code_simp
  from C8_mime_priority [OF c conflicting_run] m low
  have "n_mimeType \<lparr> n_id = ''upload-1'', n_name = ''plan.png'', n_detail = ''high'',
           n_buffer = Some [1, 2, 3], n_mimeType = Some ''image/jpeg'', n_bytes = Some 3,
           n_dataUrl = None, n_blobPathname = None, n_remoteUrl = None, n_s3Key = None \<rparr>
          = Some ''image/jpeg''"
    by simp
  with c m conflicting_ext conflicting_run show ?thesis by blast
qed


section \<open>The data URL round trip\<close>

lemma plus_char: "(c = CHR ''+'') = (of_char c = (43::nat))" "(c = CHR ''-'') = (of_char c = (45::nat))"
  "(c = CHR ''/'') = (of_char c = (47::nat))" "(c = CHR ''_'') = (of_char c = (95::nat))"
  "(c = CHR ''='') = (of_char c = (61::nat))"
proof -
  have e: "(c = d) = (of_char c = (of_char d :: nat))" for d by simp
  show "(c = CHR ''+'') = (of_char c = (43::nat))" by (subst e) simp
  show "(c = CHR ''-'') = (of_char c = (45::nat))" by (subst e) simp
  show "(c = CHR ''/'') = (of_char c = (47::nat))" by (subst e) simp
  show "(c = CHR ''_'') = (of_char c = (95::nat))" by (subst e) simp
  show "(c = CHR ''='') = (of_char c = (61::nat))" by (subst e) simp
qed

lemma of_char_b64_char:
  "(of_char (b64_char n) :: nat) =
     (if n < 26 then 65 + n else if n < 52 then 71 + n else if n < 62 then n - 4
      else if n = 62 then 43 else 47)"
  by (simp add: b64_char_def)

lemma unbase64_b64_char: "n < 64 \<Longrightarrow> unbase64 (b64_char n) = Some n"
  unfolding unbase64_def Let_def plus_char of_char_b64_char
  by (simp; linarith)

lemma b64_char_not_pad: "b64_char n \<noteq> CHR ''=''"
  unfolding plus_char of_char_b64_char by (simp; arith)

lemma b64_char_no_space: "\<not> is_space (b64_char n)" "\<not> is_line_terminator (b64_char n)"
  unfolding is_space_def is_line_terminator_def of_char_b64_char by (simp; arith)+

lemma byte_bound: "unat (a :: byte) < 256"
  using unsigned_less [of a, where 'a = nat] by simp

lemma group_bounds:
  fixes x y z :: nat
  assumes "x < 256" "y < 256" "z < 256"
  shows "x div 4 < 64" "x mod 4 * 16 + y div 16 < 64" "y mod 16 * 4 + z div 64 < 64" "z mod 64 < 64"
    "x mod 4 * 16 < 64" "y mod 16 * 4 < 64"
proof -
  have a: "x mod 4 < 4" "y mod 16 < 16" by simp_all
  have b: "y div 16 < 16" "z div 64 < 4" "x div 4 < 64" using assms by simp_all
  show "x div 4 < 64" by (rule b)
  show "x mod 4 * 16 + y div 16 < 64" using a b by linarith
  show "y mod 16 * 4 + z div 64 < 64" using a b by linarith
  show "z mod 64 < 64" by simp
  show "x mod 4 * 16 < 64" using a by linarith
  show "y mod 16 * 4 < 64" using a by linarith
qed

lemma sextets_byte_a:
  fixes x y z :: nat
  assumes "y < 256"
  shows  "x div 4 * 4 + (x mod 4 * 16 + y div 16) div 16 = x"
proof -
  have "y div 16 < 16" using assms by simp
  then have "(x mod 4 * 16 + y div 16) div 16 = x mod 4" by simp
  then show ?thesis by simp
qed
lemma sextets_byte_b:
  fixes x y z :: nat
  assumes "y < 256" "z < 256"
  shows "(x mod 4 * 16 + y div 16) mod 16 * 16 + (y mod 16 * 4 + z div 64) div 4 = y"
proof -
  have "y div 16 < 16" using assms by simp
  then have a: "(x mod 4 * 16 + y div 16) mod 16 = y div 16" by simp
  have "z div 64 < 4" using assms by simp
  then have b: "(y mod 16 * 4 + z div 64) div 4 = y mod 16" by simp
  from a b show ?thesis by simp
qed
lemma sextets_byte_c:
  fixes x y z :: nat
  assumes "z < 256"
  shows "(y mod 16 * 4 + z div 64) mod 4 * 64 + z mod 64 = z"
proof -
  have "z div 64 < 4" using assms by simp
  then have "(y mod 16 * 4 + z div 64) mod 4 = z div 64" by simp
  then show ?thesis by simp
qed
lemma sextets_of_one: fixes x :: nat shows "x div 4 * 4 + (x mod 4 * 16) div 16 = x"
  by simp
lemma sextets_of_two_b:  fixes x y z :: nat
  assumes "y < 256"
  shows "(x mod 4 * 16 + y div 16) mod 16 * 16 + (y mod 16 * 4) div 4 = y"
proof -
  have "y div 16 < 16" using assms by simp
  then have a: "(x mod 4 * 16 + y div 16) mod 16 = y div 16" by simp
  then show ?thesis by simp
qed

lemma sextets_char: "n < 64 \<Longrightarrow> sextets (b64_char n # s) = n # sextets s"
  by (simp add: sextets_def b64_char_not_pad unbase64_b64_char List.map_filter_simps)

lemma sextets_pad: "sextets (CHR ''='' # s) = []"
  by (simp add: sextets_def List.map_filter_simps)

lemma sextets_Nil: "sextets [] = []"
  by (simp add: sextets_def List.map_filter_simps)

lemma base64_round_trip: "base64_decode (base64_encode bs) = bs"
proof -
  have "from_sextets (sextets (base64_encode bs)) = bs"
  proof (induction bs rule: base64_encode.induct)
    case 1
    show ?case by (simp add: sextets_Nil)
  next
    case (2 a)
    note b = byte_bound [of a]
    show ?case
      using group_bounds(1,5) [OF b b b] sextets_of_one [of "unat a"]
      by (simp add: sextets_char sextets_pad)
  next
    case (3 a b)
    note ba = byte_bound [of a] and bb = byte_bound [of b]
    show ?case
      using group_bounds(1,2,6) [OF ba bb bb] sextets_byte_a [OF bb, of "unat a"] sextets_of_two_b [OF bb, of "unat a"]
      by (simp add: sextets_char sextets_pad)
  next
    case (4 a b c rest)
    note ba = byte_bound [of a] and bb = byte_bound [of b] and bc = byte_bound [of c]
    show ?case
      using group_bounds(1,2,3,4) [OF ba bb bc] sextets_byte_a [OF bb, of "unat a"]
        sextets_byte_b [OF bb bc, of "unat a"] sextets_byte_c [OF bc, of "unat b"] "4.IH"
      by (simp add: sextets_char)
  qed
  then show ?thesis by (simp add: base64_decode_def)
qed

lemma pad_no_space: "\<not> is_space (CHR ''='')" "\<not> is_line_terminator (CHR ''='')"
  by (simp_all add: is_space_def is_line_terminator_def)

lemma encode_chars:
  "c \<in> set (base64_encode bs) \<Longrightarrow> \<not> is_space c \<and> \<not> is_line_terminator c"
  by (induction bs rule: base64_encode.induct)
     (auto simp add: b64_char_no_space pad_no_space)

lemma encode_nonempty: "bs \<noteq> [] \<Longrightarrow> base64_encode bs \<noteq> []"
  by (induction bs rule: base64_encode.induct) simp_all

lemma lower_ascii_literals:
  "lower_ascii ''data:'' = ''data:''" "lower_ascii '';base64,'' = '';base64,''"
  by code_simp+

lemma match_generated:
  assumes "bs \<noteq> []" "mime \<noteq> []" "CHR '';'' \<notin> set mime"
  shows "match_data_url (bufferToDataUrl bs (Some mime)) = Some (mime, base64_encode bs)"
proof -
  let ?e = "base64_encode bs"
  let ?rest = "mime @ '';base64,'' @ ?e"
  have url: "bufferToDataUrl bs (Some mime) = ''data:'' @ ?rest"
    by (simp add: bufferToDataUrl_def)
  have t: "take 5 (''data:'' @ ?rest) = ''data:''" "drop 5 (''data:'' @ ?rest) = ?rest"
    by simp_all
  have all: "\<forall>c\<in>set mime. c \<noteq> CHR '';''" using assms(3) by auto
  have tw: "takeWhile (\<lambda>c. c \<noteq> CHR '';'') ?rest = mime"
    using all by (simp add: takeWhile_append2)
  have dw: "dropWhile (\<lambda>c. c \<noteq> CHR '';'') ?rest = '';base64,'' @ ?e"
    using all by (simp add: dropWhile_append2)
  have t8: "take 8 ('';base64,'' @ ?e) = '';base64,''" "drop 8 ('';base64,'' @ ?e) = ?e"
    by simp_all
  have ne: "?e \<noteq> []" using assms(1) by (rule encode_nonempty)
  have lt: "\<not> list_ex is_line_terminator ?e"
    using encode_chars [of _ bs] by (auto simp add: list_ex_iff)
  show ?thesis
    unfolding url match_data_url_def Let_def t tw dw t8 lower_ascii_literals
    using assms(2) ne lt by simp
qed

lemma trim_id:
  assumes "s \<noteq> []" "\<not> is_space (hd s)" "\<not> is_space (last s)"
  shows "trim s = s"
proof -
  have a: "dropWhile is_space s = s"
    using assms(1,2) by (cases s) simp_all
  have "rev s \<noteq> []" "\<not> is_space (hd (rev s))"
    using assms(1,3) by (simp_all add: hd_rev)
  then have b: "dropWhile is_space (rev s) = rev s"
    by (cases "rev s") simp_all
  show ?thesis by (simp add: trim_def a b)
qed

lemma trim_generated:
  assumes "bs \<noteq> []"
  shows "trim (bufferToDataUrl bs mimeType) = bufferToDataUrl bs mimeType"
proof (rule trim_id)
  let ?e = "base64_encode bs"
  have ne: "?e \<noteq> []" using assms by (rule encode_nonempty)
  show "bufferToDataUrl bs mimeType \<noteq> []" by (simp add: bufferToDataUrl_def)
  show "\<not> is_space (hd (bufferToDataUrl bs mimeType))"
    by (simp add: bufferToDataUrl_def is_space_def)
  have "last (bufferToDataUrl bs mimeType) = last ?e"
    using ne by (simp add: bufferToDataUrl_def)
  moreover have "last ?e \<in> set ?e" using ne by simp
  ultimately show "\<not> is_space (last (bufferToDataUrl bs mimeType))"
    using encode_chars [of "last ?e" bs] by simp
qed

text \<open>
  Claim C9. A buffer that is not empty, encoded by \<open>bufferToDataUrl\<close> with a MIME type that
  is not empty and has no semicolon, comes back from the normalizer: the trimmed data URL
  matches the pattern with the same MIME type and the encoded payload, decoding the payload
  gives the bytes again, and a descriptor carrying that data URL (and no buffer) is
  normalized to an upload with exactly these bytes when they are within the size cap.
  Decoding an encoding gives the bytes back for every buffer, the empty one included.
\<close>

theorem C9_data_url_round_trip:
  assumes "bs \<noteq> []" "mime \<noteq> []" "CHR '';'' \<notin> set mime"
  shows "match_data_url (trim (bufferToDataUrl bs (Some mime))) = Some (mime, base64_encode bs)
       \<and> base64_decode (base64_encode bs) = bs
       \<and> (\<forall>u. bufferCandidate u = None
               \<and> u_dataUrl u = JString (bufferToDataUrl bs (Some mime))
               \<and> length bs \<le> MAX_UPLOAD_BYTES \<longrightarrow>
             (\<exists>n. normalizeUpload pf i u = Inr n \<and> n_buffer n = Some bs))"
proof (intro conjI allI impI)
  show m: "match_data_url (trim (bufferToDataUrl bs (Some mime))) = Some (mime, base64_encode bs)"
    using assms by (simp add: trim_generated match_generated)
  show "base64_decode (base64_encode bs) = bs" by (rule base64_round_trip)
  fix u
  assume u: "bufferCandidate u = None
               \<and> u_dataUrl u = JString (bufferToDataUrl bs (Some mime))
               \<and> length bs \<le> MAX_UPLOAD_BYTES"
  then have d: "dataUrl_of u = bufferToDataUrl bs (Some mime)"
    using assms(1) by (simp add: dataUrl_of_def trim_generated)
  then have ne: "dataUrl_of u \<noteq> []" by (simp add: bufferToDataUrl_def)
  have mm: "match_data_url (dataUrl_of u) = Some (mime, base64_encode bs)"
    using assms d by (simp add: match_generated)
  from u have none: "bufferCandidate u = None" by simp
  show "\<exists>n. normalizeUpload pf i u = Inr n \<and> n_buffer n = Some bs"
    using u by (simp add: data_url_branch [OF none ne] mm base64_round_trip)
qed

text \<open>Three bytes as a PNG data URL.\<close>

theorem C9_data_url_round_trip_witness:
  "bufferToDataUrl [1, 2, 3] (Some ''image/png'') = ''data:image/png;base64,AQID''
   \<and> match_data_url (trim ''data:image/png;base64,AQID'') = Some (''image/png'', ''AQID'')
   \<and> base64_decode ''AQID'' = [1, 2, 3]
   \<and> (\<exists>n. normalizeUpload example_platform 0 generated_upload = Inr n
          \<and> n_buffer n = Some [1, 2, 3])"
proof -
  have h1: "[1, 2, 3 :: byte] \<noteq> []" by simp
  have h2: "''image/png'' \<noteq> []" by simp
  have h3: "CHR '';'' \<notin> set ''image/png''" by simp
  have e: "bufferToDataUrl [1, 2, 3] (Some ''image/png'') = ''data:image/png;base64,AQID''"
    "base64_encode [1, 2, 3] = ''AQID''"
    by code_simp+
  have u: "bufferCandidate generated_upload = None
           \<and> u_dataUrl generated_upload = JString (bufferToDataUrl [1, 2, 3] (Some ''image/png''))
           \<and> length [1, 2, 3 :: byte] \<le> MAX_UPLOAD_BYTES"
    by (simp add: generated_upload_def empty_upload_def bufferCandidate_def MAX_UPLOAD_BYTES_def)
  from C9_data_url_round_trip [OF h1 h2 h3, of example_platform 0] u
  have "match_data_url (trim (bufferToDataUrl [1, 2, 3] (Some ''image/png'')))
          = Some (''image/png'', base64_encode [1, 2, 3])
        \<and> base64_decode (base64_encode [1, 2, 3]) = [1, 2, 3]
        \<and> (\<exists>n. normalizeUpload example_platform 0 generated_upload = Inr n
               \<and> n_buffer n = Some [1, 2, 3])"
    by blast
  then show ?thesis by (simp only: e) 
qed

text \<open>
  The empty buffer encodes to a data URL without payload, which the pattern does not
  match, so the normalizer throws; and a MIME type with a semicolon breaks the match as
  well.
\<close>

theorem C9_counterexample:
  "bufferToDataUrl [] (Some ''image/png'') = ''data:image/png;base64,''
   \<and> match_data_url (trim (bufferToDataUrl [] (Some ''image/png''))) = None
   \<and> normalizeUpload example_platform 0
        (empty_upload\<lparr>u_dataUrl := JString (bufferToDataUrl [] (Some ''image/png''))\<rparr>)
       = Inl (Error (data_url_message 0))
   \<and> match_data_url (trim (bufferToDataUrl [1, 2, 3] (Some ''image/png;q=1''))) = None"
  by code_simp


section \<open>Properties of delivery\<close>


lemma sign_no_key:
  "\<not> truthy (n_s3Key n) \<Longrightarrow> sign_existing_key pf st n c = (st, Inr c)"
  by (cases c) (simp add: sign_existing_key_def truthy_def split: option.splits)


lemma offload_no_store:
  "\<not> s3Client pf \<Longrightarrow> offload_buffer pf st n c = (st, c)"
  by (cases c) (simp add: offload_buffer_def split: option.splits)


lemma remote_none:
  "\<not> truthy (n_remoteUrl n) \<Longrightarrow> use_remote_url n c = c"
  by (cases c) (simp add: use_remote_url_def truthy_def split: option.splits)



subsection \<open>Remote URL\<close>





subsection \<open>Storage key\<close>

lemma createSigned_fails:
  assumes "\<not> s3Client pf \<or> isl (getSignedUrl pf (trimSlashes k))"
  shows "\<exists>e. createSignedUrlForKey pf k = Inl e"
proof (cases "s3Client pf")
  case False
  then show ?thesis by (simp add: createSignedUrlForKey_def)
next
  case True
  with assms obtain e where "getSignedUrl pf (trimSlashes k) = Inl e"
    by (cases "getSignedUrl pf (trimSlashes k)") auto
  with True show ?thesis by (simp add: createSignedUrlForKey_def Let_def)
qed

lemma sign_fails:
  assumes "n_s3Key n = Some k" "k \<noteq> []" "\<not> truthy p" "createSignedUrlForKey pf k = Inl e"
  shows "sign_existing_key pf st n (p, s) =
           (st\<lparr>console := console st @ [sign_failure_log n k e]\<rparr>, Inl (load_error n))"
  using assms by (simp add: sign_existing_key_def)

lemma deliver_sign_fails:
  assumes "n_s3Key n = Some k" "k \<noteq> []" "\<not> truthy (n_remoteUrl n)"
    and "createSignedUrlForKey pf k = Inl e"
  shows "deliver pf st n =
           (st\<lparr>console := console st @ [sign_failure_log n k e]\<rparr>, Inl (load_error n))"
proof -
  have nt: "\<not> truthy None" by (simp add: truthy_def)
  show ?thesis
    unfolding deliver_def remote_none [OF assms(3)]
      sign_fails [OF assms(1,2) nt assms(4)]
    by simp
qed

lemma deliver_all_append:
  "deliver_all pf st (xs @ ys) c s =
     (case deliver_all pf st xs c s of
        (st1, Inl e) \<Rightarrow> (st1, Inl e)
      | (st1, Inr (c1, s1)) \<Rightarrow> deliver_all pf st1 ys c1 s1)"
proof (induction xs arbitrary: st c s)
  case Nil
  show ?case by simp
next
  case (Cons x xs)
  show ?case
  proof (cases "deliver pf st x")
    case (Pair st1 r)
    show ?thesis
    proof (cases r)
      case (Inl e)
      with Pair show ?thesis by simp
    next
      case (Inr sb)
      obtain sm bl where "sb = (sm, bl)" by (cases sb)
      with Pair Inr show ?thesis by (simp add: Cons.IH)
    qed
  qed
qed

lemma deliver_all_fails:
  assumes "\<And>st. isl (snd (deliver pf st n))" "n \<in> set ns"
  shows "isl (snd (deliver_all pf st ns c s))"
  using assms(2)
proof (induction ns arbitrary: st c s)
  case Nil
  then show ?case by simp
next
  case (Cons x xs)
  show ?case
  proof (cases "deliver pf st x")
    case (Pair st1 r)
    show ?thesis
    proof (cases r)
      case (Inl e)
      with Pair show ?thesis by simp
    next
      case (Inr sb)
      obtain sm bl where sb: "sb = (sm, bl)" by (cases sb)
      have "x \<noteq> n"
      proof
        assume "x = n"
        with Pair Inr assms(1) [of st] show False by simp
      qed
      with Cons.prems have "n \<in> set xs" by simp
      then have "isl (snd (deliver_all pf st1 xs (c @ bl) (s @ [sm])))" by (rule Cons.IH)
      with Pair Inr sb show ?thesis by simp
    qed
  qed
qed

text \<open>
  Claim C4. For an upload that resolved to a storage key, when the signed URL cannot be
  made (no store is configured, or signing throws), the turn of the loop writes the failure
  to the console and throws the error \<^verbatim>\<open>Unable to load uploaded image "<name>" from S3.\<close>
  with the name of this upload. When the uploads before it were delivered, this is the
  error of the whole loop; and in every case \<open>buildImageInputs\<close> ends in an error, so that
  no content block and no summary is returned for any upload.
\<close>

theorem C4_signing_failure_aborts:
  assumes "n_s3Key n = Some k" "k \<noteq> []" "\<not> truthy (n_remoteUrl n)"
    and "\<not> s3Client pf \<or> isl (getSignedUrl pf (trimSlashes k))"
  shows "(\<exists>e. deliver pf st n =
            (st\<lparr>console := console st @
                  [ConsoleError ''Failed to sign existing S3 key'' e
                     [(''key'', k), (''name'', n_name n)]]\<rparr>,
             Inl (Error (''Unable to load uploaded image \"'' @ n_name n @ ''\" from S3.''))))
       \<and> (\<forall>before after cs ss st1 c1 s1.
             deliver_all pf st before cs ss = (st1, Inr (c1, s1)) \<longrightarrow>
             snd (deliver_all pf st (before @ n # after) cs ss) =
               Inl (Error (''Unable to load uploaded image \"'' @ n_name n @ ''\" from S3.'')))
       \<and> (\<forall>uploads ns. normalizeUploads pf uploads = Inr ns \<and> n \<in> set ns \<longrightarrow>
             isl (snd (buildImageInputs pf cfg st uploads)))"
proof -
  from createSigned_fails [OF assms(4)] obtain e where e: "createSignedUrlForKey pf k = Inl e"
    by blast
  have d: "deliver pf s n =
            (s\<lparr>console := console s @ [sign_failure_log n k e]\<rparr>, Inl (load_error n))" for s
    by (rule deliver_sign_fails [OF assms(1,2,3) e])
  have "deliver pf st n =
            (st\<lparr>console := console st @
                  [ConsoleError ''Failed to sign existing S3 key'' e
                     [(''key'', k), (''name'', n_name n)]]\<rparr>,
             Inl (Error (''Unable to load uploaded image \"'' @ n_name n @ ''\" from S3.'')))"
    using d [of st] by (simp add: sign_failure_log_def load_error_def)
  then have one: "\<exists>e. deliver pf st n =
            (st\<lparr>console := console st @
                  [ConsoleError ''Failed to sign existing S3 key'' e
                     [(''key'', k), (''name'', n_name n)]]\<rparr>,
             Inl (Error (''Unable to load uploaded image \"'' @ n_name n @ ''\" from S3.'')))"
    by blast
  have first: "snd (deliver_all pf st (before @ n # after) cs ss) =
               Inl (Error (''Unable to load uploaded image \"'' @ n_name n @ ''\" from S3.''))"
    if "deliver_all pf st before cs ss = (st1, Inr (c1, s1))"
    for before after cs ss st1 c1 s1
    using that by (simp add: deliver_all_append d load_error_def)
  have any: "isl (snd (deliver pf s n))" for s by (simp add: d)
  have whole: "isl (snd (buildImageInputs pf cfg st uploads))"
    if "normalizeUploads pf uploads = Inr ns \<and> n \<in> set ns" for uploads ns
  proof (cases "reference_images pf (images cfg) []")
    case (Inl x)
    with that show ?thesis by (simp add: buildImageInputs_def)
  next
    case (Inr refs)
    from that have "isl (snd (deliver_all pf st ns refs []))"
      using deliver_all_fails [of pf n ns st refs "[]"] any by blast
    with that Inr show ?thesis by (simp add: buildImageInputs_def)
  qed
  from one first whole show ?thesis by blast
qed

text \<open>
  A signer that throws, and a request whose second upload is a storage key.
\<close>

theorem C4_signing_failure_aborts_witness:
  "deliver failing_signer_platform start_state key_normalized =
     (\<lparr> uuid_calls = 0,
        console = [ConsoleError ''Failed to sign existing S3 key''
                     (Error ''CredentialsProviderError'')
                     [(''key'', ''plans/plan.png''), (''name'', ''plan.png'')]],
        s3_objects = [] \<rparr>,
      Inl (Error ''Unable to load uploaded image \"plan.png\" from S3.''))
   \<and> isl (snd (buildImageInputs failing_signer_platform no_images start_state
                  [url_upload ''https://a/1'', key_upload]))"
proof -
  have h1: "n_s3Key key_normalized = Some ''plans/plan.png''" "''plans/plan.png'' \<noteq> []"
      "\<not> truthy (n_remoteUrl key_normalized)"
    by (simp_all add: key_normalized_def truthy_def)
  have h4: "\<not> s3Client failing_signer_platform
            \<or> isl (getSignedUrl failing_signer_platform (trimSlashes ''plans/plan.png''))"
    by (simp add: failing_signer_platform_def)
  have run: "normalizeUploads failing_signer_platform [url_upload ''https://a/1'', key_upload] =
     Inr [\<lparr> n_id = ''upload-1'', n_name = ''Uploaded image 1'', n_detail = ''high'',
            n_buffer = None, n_mimeType = None, n_bytes = None,
            n_dataUrl = None, n_blobPathname = None,
            n_remoteUrl = Some ''https://a/1'', n_s3Key = None \<rparr>, key_normalized]"
    by code_simp
  have direct: "deliver failing_signer_platform start_state key_normalized =
     (\<lparr> uuid_calls = 0,
        console = [ConsoleError ''Failed to sign existing S3 key''
                     (Error ''CredentialsProviderError'')
                     [(''key'', ''plans/plan.png''), (''name'', ''plan.png'')]],
        s3_objects = [] \<rparr>,
      Inl (Error ''Unable to load uploaded image \"plan.png\" from S3.''))"
    by code_simp
  note inst = C4_signing_failure_aborts [OF h1 h4, of start_state no_images]
  from inst have "snd (deliver failing_signer_platform start_state key_normalized) =
      Inl (Error (''Unable to load uploaded image \"'' @ n_name key_normalized @ ''\" from S3.''))"
    by auto
  moreover from inst run
  have "isl (snd (buildImageInputs failing_signer_platform no_images start_state
                  [url_upload ''https://a/1'', key_upload]))"
    by (simp add: key_normalized_def)
  ultimately show ?thesis using direct by simp
qed

subsection \<open>Buffer offload\<close>

lemma offload_fails:
  assumes "n_buffer n = Some b" "\<not> truthy p" "s3Client pf"
    and "uploadBufferToS3 pf st b (n_mimeType n) = (st', Inl e)"
  shows "offload_buffer pf st n (p, s) =
           (st'\<lparr>console := console st' @ [offload_failure_log n e]\<rparr>, (p, s))"
  using assms by (simp add: offload_buffer_def)

lemma data_url_nonempty: "bufferToDataUrl b m \<noteq> []"
  by (simp add: bufferToDataUrl_def)

lemma inline_from_buffer:
  assumes "n_buffer n = Some b" "truthy (n_dataUrl n) \<or> truthy (n_mimeType n)"
  shows "inline_fallback n (None, s) =
           (Some (case n_dataUrl n of
                    Some d \<Rightarrow> if d \<noteq> [] then d else bufferToDataUrl b (n_mimeType n)
                  | None \<Rightarrow> bufferToDataUrl b (n_mimeType n)),
            s\<lparr>s_strategy := Some ''inline''\<rparr>)"
proof (cases "truthy (n_dataUrl n)")
  case True
  then obtain d where d: "n_dataUrl n = Some d" "d \<noteq> []"
    by (cases "n_dataUrl n") (simp_all add: truthy_def)
  then show ?thesis by (simp add: inline_fallback_def truthy_def)
next
  case False
  with assms(2) have m: "truthy (n_mimeType n)" by simp
  from False have "(case n_dataUrl n of
                    Some d \<Rightarrow> if d \<noteq> [] then d else bufferToDataUrl b (n_mimeType n)
                  | None \<Rightarrow> bufferToDataUrl b (n_mimeType n)) = bufferToDataUrl b (n_mimeType n)"
    by (cases "n_dataUrl n") (simp_all add: truthy_def)
  with False m assms(1) show ?thesis
    by (simp add: inline_fallback_def Let_def truthy_def data_url_nonempty)
qed

lemma deliver_after_offload:
  assumes "\<not> truthy (n_remoteUrl n)" "\<not> truthy (n_s3Key n)"
    and "offload_buffer pf st n (None, summary_start n) = (st2, (None, summary_start n))"
  shows "deliver pf st n =
           (st2, case inline_fallback n (None, summary_start n) of
                   (p, s) \<Rightarrow> if truthy p
                             then Inr (s, upload_blocks n (case p of Some u \<Rightarrow> u | None \<Rightarrow> []))
                             else Inl (no_image_error n))"
  unfolding deliver_def remote_none [OF assms(1)] sign_no_key [OF assms(2)]
  by (simp add: assms(3) split: prod.splits)

lemma s3Client_off: "\<not> s3Client (pf\<lparr>s3Client := False\<rparr>)"
  by simp

text \<open>
  An upload with a buffer (and neither URL nor storage key) and a configured store, whose
  offload throws, in the put or in the signing: the error is written to the console and is
  not thrown on, and the outcome of the turn is the one of delivery without a store. When
  the upload has a data URL or a MIME type that is not empty, that outcome is the inline
  strategy, with the kept data URL or else the data URL built from the buffer.
\<close>

lemma offload_failure_outcome:
  assumes "n_buffer n = Some b" "\<not> truthy (n_remoteUrl n)" "\<not> truthy (n_s3Key n)"
    and "s3Client pf"
    and "uploadBufferToS3 pf st b (n_mimeType n) = (st', Inl e)"
  shows "fst (deliver pf st n) = st'\<lparr>console := console st' @ [offload_failure_log n e]\<rparr>
       \<and> snd (deliver pf st n) = snd (deliver (pf\<lparr>s3Client := False\<rparr>) st n)
       \<and> (truthy (n_dataUrl n) \<or> truthy (n_mimeType n) \<longrightarrow>
            snd (deliver pf st n) =
              Inr ((summary_start n)\<lparr>s_strategy := Some ''inline''\<rparr>,
                   upload_blocks n
                     (case n_dataUrl n of
                        Some d \<Rightarrow> if d \<noteq> [] then d else bufferToDataUrl b (n_mimeType n)
                      | None \<Rightarrow> bufferToDataUrl b (n_mimeType n))))"
proof -
  let ?c = "(None, summary_start n)"
  let ?log = "st'\<lparr>console := console st' @ [offload_failure_log n e]\<rparr>"
  let ?out = "case inline_fallback n ?c of
                   (p, s) \<Rightarrow> if truthy p
                             then Inr (s, upload_blocks n (case p of Some u \<Rightarrow> u | None \<Rightarrow> []))
                             else Inl (no_image_error n)"
  have nt: "\<not> truthy None" by (simp add: truthy_def)
  have off: "offload_buffer pf st n ?c = (?log, ?c)"
    by (rule offload_fails [OF assms(1) nt assms(4,5)])
  have d1: "deliver pf st n = (?log, ?out)"
    by (rule deliver_after_offload [OF assms(2,3) off])
  have off2: "offload_buffer (pf\<lparr>s3Client := False\<rparr>) st n ?c = (st, ?c)"
    by (rule offload_no_store [OF s3Client_off])
  have d2: "deliver (pf\<lparr>s3Client := False\<rparr>) st n = (st, ?out)"
    by (rule deliver_after_offload [OF assms(2,3) off2])
  have ok: "?out = Inr ((summary_start n)\<lparr>s_strategy := Some ''inline''\<rparr>,
                   upload_blocks n
                     (case n_dataUrl n of
                        Some d \<Rightarrow> if d \<noteq> [] then d else bufferToDataUrl b (n_mimeType n)
                      | None \<Rightarrow> bufferToDataUrl b (n_mimeType n)))"
    if "truthy (n_dataUrl n) \<or> truthy (n_mimeType n)"
  proof -
    have "truthy (Some (case n_dataUrl n of
                        Some d \<Rightarrow> if d \<noteq> [] then d else bufferToDataUrl b (n_mimeType n)
                      | None \<Rightarrow> bufferToDataUrl b (n_mimeType n)))"
      by (cases "n_dataUrl n") (simp_all add: truthy_def data_url_nonempty)
    then show ?thesis
      by (simp add: inline_from_buffer [OF assms(1) that])
  qed
  from d1 d2 ok show ?thesis by simp
qed

lemma failing_put:
  "uploadBufferToS3 failing_store_platform start_state [1, 2, 3] (n_mimeType buffer_normalized)
     = (\<lparr> uuid_calls = 1, console = [], s3_objects = [] \<rparr>, Inl (Error ''AccessDenied''))"
  by code_simp

text \<open>
  A store whose put is refused: the PNG goes inline and the console has the entry.
\<close>

lemma offload_failure_example:
  "deliver failing_store_platform start_state buffer_normalized =
     (\<lparr> uuid_calls = 1,
        console = [ConsoleError ''Failed to offload upload to S3, falling back to inline''
                     (Error ''AccessDenied'') [(''name'', ''plan.png'')]],
        s3_objects = [] \<rparr>,
      Inr (\<lparr> s_id = ''upload-1'', s_name = ''plan.png'', s_bytes = Some 3,
              s_mimeType = Some ''image/png'', s_strategy = Some ''inline'',
              s_url = None, s_key = None, s_blobPathname = None \<rparr>,
           [InputText ''Uploaded upload-1: plan.png'',
            InputImage ''data:image/png;base64,AQID'' ''high'']))"
proof -
  have h: "n_buffer buffer_normalized = Some [1, 2, 3]" "\<not> truthy (n_remoteUrl buffer_normalized)"
     "\<not> truthy (n_s3Key buffer_normalized)" "s3Client failing_store_platform"
    by (simp_all add: buffer_normalized_def truthy_def failing_store_platform_def
          example_platform_def)
  have t: "truthy (n_dataUrl buffer_normalized) \<or> truthy (n_mimeType buffer_normalized)"
    by (simp add: buffer_normalized_def truthy_def)
  have e1: "\<lparr> uuid_calls = 1, console = [], s3_objects = [] \<rparr>
              \<lparr>console := console \<lparr> uuid_calls = 1, console = [], s3_objects = [] \<rparr>
                 @ [offload_failure_log buffer_normalized (Error ''AccessDenied'')]\<rparr>
            = \<lparr> uuid_calls = 1,
                console = [ConsoleError ''Failed to offload upload to S3, falling back to inline''
                     (Error ''AccessDenied'') [(''name'', ''plan.png'')]],
                s3_objects = [] \<rparr>"
    by code_simp
  have e2: "(summary_start buffer_normalized)\<lparr>s_strategy := Some ''inline''\<rparr>
            = \<lparr> s_id = ''upload-1'', s_name = ''plan.png'', s_bytes = Some 3,
              s_mimeType = Some ''image/png'', s_strategy = Some ''inline'',
              s_url = None, s_key = None, s_blobPathname = None \<rparr>"
    by code_simp
  have e3: "upload_blocks buffer_normalized
                     (case n_dataUrl buffer_normalized of
                        Some d \<Rightarrow> if d \<noteq> [] then d
                                  else bufferToDataUrl [1, 2, 3] (n_mimeType buffer_normalized)
                      | None \<Rightarrow> bufferToDataUrl [1, 2, 3] (n_mimeType buffer_normalized))
            = [InputText ''Uploaded upload-1: plan.png'',
               InputImage ''data:image/png;base64,AQID'' ''high'']"
    by code_simp
  from offload_failure_outcome [OF h failing_put] t
  have "fst (deliver failing_store_platform start_state buffer_normalized) =
          \<lparr> uuid_calls = 1, console = [], s3_objects = [] \<rparr>
              \<lparr>console := console \<lparr> uuid_calls = 1, console = [], s3_objects = [] \<rparr>
                 @ [offload_failure_log buffer_normalized (Error ''AccessDenied'')]\<rparr>"
    and "snd (deliver failing_store_platform start_state buffer_normalized) =
              Inr ((summary_start buffer_normalized)\<lparr>s_strategy := Some ''inline''\<rparr>,
                   upload_blocks buffer_normalized
                     (case n_dataUrl buffer_normalized of
                        Some d \<Rightarrow> if d \<noteq> [] then d
                                  else bufferToDataUrl [1, 2, 3] (n_mimeType buffer_normalized)
                      | None \<Rightarrow> bufferToDataUrl [1, 2, 3] (n_mimeType buffer_normalized)))"
    by blast+
  then show ?thesis unfolding e1 e2 e3 by (simp add: prod_eq_iff)
qed


subsection \<open>Order of the contents\<close>

lemma normalizeUpload_labels:
  assumes "normalizeUpload pf i u = Inr n"
  shows "n_id n = ''upload-'' @ show_nat (i + 1) \<and> n_name n = name_of i u
         \<and> n_detail n = detail_of u"
proof (cases "bufferCandidate u")
  case (Some buf)
  show ?thesis
  proof (cases "bytes_of u buf > of_nat MAX_UPLOAD_BYTES")
    case True
    with assms show ?thesis by (simp add: buffer_branch [OF Some])
  next
    case False
    with assms show ?thesis by (auto simp add: buffer_branch [OF Some])
  qed
next
  case None
  show ?thesis
  proof (cases "dataUrl_of u \<noteq> []")
    case True
    show ?thesis
    proof (cases "match_data_url (dataUrl_of u)")
      case nomatch: None
      with assms show ?thesis by (simp add: data_url_branch [OF None True])
    next
      case (Some md)
      obtain mime data where md: "md = (mime, data)" by (cases md)
      show ?thesis
      proof (cases "length (base64_decode data) > MAX_UPLOAD_BYTES")
        case True
        with assms Some md show ?thesis using data_url_branch [OF None \<open>dataUrl_of u \<noteq> []\<close>, of pf i]
          by simp
      next
        case False
        with assms Some md show ?thesis using data_url_branch [OF None \<open>dataUrl_of u \<noteq> []\<close>, of pf i]
          by auto
      qed
    qed
  next
    case nodata: False
    show ?thesis
    proof (cases "remoteUrl_of u \<noteq> []")
      case True
      with assms nodata show ?thesis using remote_url_branch [OF None _ True, of pf i] by auto
    next
      case False
      with assms nodata show ?thesis using key_branch [OF None, of pf i]
        by (cases "truthy (s3Key_of u)") auto
    qed
  qed
qed

lemma map_from_nth:
  "map_from pf k us = Inr ns \<Longrightarrow> j < length us \<Longrightarrow>
     normalizeUpload pf (k + j) (us ! j) = Inr (ns ! j)"
proof (induction us arbitrary: k ns j)
  case Nil
  then show ?case by simp
next
  case (Cons u us)
  from Cons.prems(1) obtain n ms where
    n: "normalizeUpload pf k u = Inr n" and ms: "map_from pf (Suc k) us = Inr ms"
    and ns: "ns = n # ms"
    by (auto split: sum.splits)
  show ?case
  proof (cases j)
    case 0
    with n ns show ?thesis by simp
  next
    case (Suc j')
    with Cons.prems(2) have "j' < length us" by simp
    from Cons.IH [OF ms this] Suc ns show ?thesis by simp
  qed
qed

lemma normalizeUploads_nth:
  assumes "normalizeUploads pf us = Inr ns" "j < length ns"
  shows "normalizeUpload pf j (us ! j) = Inr (ns ! j)"
proof (cases "us = []")
  case True
  with assms show ?thesis by (simp add: normalizeUploads_def)
next
  case False
  with assms(1) have m: "map_from pf 0 (take MAX_UPLOAD_COUNT us) = Inr ns"
    by (simp add: normalizeUploads_def)
  from map_from_length [OF m] assms(2) have j: "j < length (take MAX_UPLOAD_COUNT us)" by simp
  from map_from_nth [OF m j] j show ?thesis by simp
qed

lemma normalizeUploads_length:
  assumes "normalizeUploads pf us = Inr ns"
  shows "length ns = min (length us) MAX_UPLOAD_COUNT"
proof (cases "us = []")
  case True
  with assms show ?thesis by (simp add: normalizeUploads_def)
next
  case False
  with assms have m: "map_from pf 0 (take MAX_UPLOAD_COUNT us) = Inr ns"
    by (simp add: normalizeUploads_def)
  from map_from_length [OF m] show ?thesis by simp
qed

lemma step_ids:
  "s_id (snd (use_remote_url n c)) = s_id (snd c)"
  "sign_existing_key pf st n c = (st1, Inr c1) \<Longrightarrow> s_id (snd c1) = s_id (snd c)"
  "s_id (snd (snd (offload_buffer pf st n c))) = s_id (snd c)"
  "s_id (snd (inline_fallback n c)) = s_id (snd c)"
proof -
  obtain p s where c: "c = (p, s)" by (cases c)
  show "s_id (snd (use_remote_url n c)) = s_id (snd c)"
    by (simp add: c use_remote_url_def remote_summary_def Let_def split: option.splits)
  show "s_id (snd (inline_fallback n c)) = s_id (snd c)"
    by (simp add: c inline_fallback_def Let_def)
  show "s_id (snd (snd (offload_buffer pf st n c))) = s_id (snd c)"
    by (simp add: c offload_buffer_def split: option.splits prod.splits sum.splits)
  show "sign_existing_key pf st n c = (st1, Inr c1) \<Longrightarrow> s_id (snd c1) = s_id (snd c)"
    by (auto simp add: c sign_existing_key_def split: option.splits prod.splits sum.splits if_splits)
qed

lemma deliver_shape:
  assumes "deliver pf st n = (st1, Inr (s, blocks))"
  shows "\<exists>url. blocks = upload_blocks n url \<and> s_id s = n_id n"
proof -
  let ?c0 = "use_remote_url n (None, summary_start n)"
  obtain sa r where sg: "sign_existing_key pf st n ?c0 = (sa, r)" by (cases "sign_existing_key pf st n ?c0")
  from assms sg obtain c1 where r: "r = Inr c1"
    by (cases r) (simp_all add: deliver_def)
  obtain sb c2 where off: "offload_buffer pf sa n c1 = (sb, c2)" by (cases "offload_buffer pf sa n c1")
  obtain p sm where inl: "inline_fallback n c2 = (p, sm)" by (cases "inline_fallback n c2")
  from assms sg r off inl have t: "truthy p" and res: "s = sm"
      "blocks = upload_blocks n (case p of Some u \<Rightarrow> u | None \<Rightarrow> [])"
    by (auto simp add: deliver_def split: if_splits)
  have "s_id sm = s_id (snd c2)" using step_ids(4) [of n c2] inl by simp
  also have "\<dots> = s_id (snd c1)" using step_ids(3) [of pf sa n c1] off by simp
  also have "\<dots> = s_id (snd ?c0)" using step_ids(2) [of pf st n ?c0 sa c1] sg r by simp
  also have "\<dots> = s_id (summary_start n)" using step_ids(1) [of n "(None, summary_start n)"] by simp
  also have "\<dots> = n_id n" by (simp add: summary_start_def)
  finally show ?thesis using res by blast
qed

lemma deliver_all_shape:
  "deliver_all pf st ns c0 s0 = (st', Inr (cs, ss)) \<Longrightarrow>
     \<exists>urls. length urls = length ns \<and> cs = c0 @ pair_blocks ns urls
       \<and> map s_id ss = map s_id s0 @ map n_id ns
       \<and> (\<forall>j<length ns. \<exists>sa sb s.
              deliver pf sa (ns ! j) = (sb, Inr (s, upload_blocks (ns ! j) (urls ! j))))"
proof (induction ns arbitrary: st c0 s0)
  case Nil
  then show ?case by simp
next
  case (Cons n ns)
  obtain st1 r where d: "deliver pf st n = (st1, r)" by (cases "deliver pf st n")
  from Cons.prems d obtain sm bl where r: "r = Inr (sm, bl)"
    by (cases r) auto
  from Cons.prems d r have rest: "deliver_all pf st1 ns (c0 @ bl) (s0 @ [sm]) = (st', Inr (cs, ss))"
    by simp
  from deliver_shape d r obtain url where url: "bl = upload_blocks n url" "s_id sm = n_id n"
    by blast
  from Cons.IH [OF rest] obtain urls where u: "length urls = length ns"
      "cs = (c0 @ bl) @ pair_blocks ns urls"
      "map s_id ss = map s_id (s0 @ [sm]) @ map n_id ns"
      "\<forall>j<length ns. \<exists>sa sb s.
              deliver pf sa (ns ! j) = (sb, Inr (s, upload_blocks (ns ! j) (urls ! j)))"
    by blast
  have each: "\<exists>sa sb s. deliver pf sa ((n # ns) ! j) =
                 (sb, Inr (s, upload_blocks ((n # ns) ! j) ((url # urls) ! j)))"
    if "j < length (n # ns)" for j
  proof (cases j)
    case 0
    with d r url show ?thesis by auto
  next
    case (Suc j')
    with that u(4) show ?thesis by simp
  qed
  have "length (url # urls) = length (n # ns)" using u(1) by simp
  moreover have "cs = c0 @ pair_blocks (n # ns) (url # urls)"
    using u(2) url(1) by simp
  moreover have "map s_id ss = map s_id s0 @ map n_id (n # ns)"
    using u(3) url(2) by simp
  ultimately show ?case using each by blast
qed

lemma reference_images_shape:
  "reference_images pf imgs c0 = Inr refs \<Longrightarrow>
     (\<exists>r. refs = c0 @ r)
     \<and> length (filter is_input_image refs) = length (filter is_input_image c0) + length imgs"
proof (induction imgs arbitrary: c0)
  case Nil
  then show ?case by simp
next
  case (Cons img imgs)
  let ?p = "path_join pf [cwd pf, ''public'', dropWhile is_slash (img_path img)]"
  from Cons.prems obtain fb where f: "readFile pf ?p = Inr fb"
    by (cases "readFile pf ?p") (simp_all add: Let_def)
  from Cons.prems f obtain url where u: "toDataUrl pf ?p fb = Inr url"
    by (cases "toDataUrl pf ?p fb") (simp_all add: Let_def)
  from Cons.prems f u obtain t d where
    rest: "reference_images pf imgs (c0 @ [InputText t, InputImage url d]) = Inr refs"
    by (simp add: Let_def)
  from Cons.IH [OF rest] show ?case by (auto simp add: is_input_image_def)
qed

lemma pair_blocks_images:
  "length urls = length ns \<Longrightarrow> length (filter is_input_image (pair_blocks ns urls)) = length ns"
proof (induction ns arbitrary: urls)
  case Nil
  then show ?case by simp
next
  case (Cons n ns)
  then obtain u us where "urls = u # us" "length us = length ns" by (cases urls) auto
  with Cons.IH [of us] show ?case
    by (simp add: upload_blocks_def is_input_image_def)
qed

lemma buildImageInputs_shape:
  assumes "buildImageInputs pf cfg st uploads = (st', Inr (cs, ss))"
  shows "\<exists>refs ns urls.
      reference_images pf (images cfg) [] = Inr refs
    \<and> normalizeUploads pf uploads = Inr ns
    \<and> length urls = length ns
    \<and> cs = refs @ pair_blocks ns urls
    \<and> map s_id ss = map n_id ns
    \<and> (\<forall>j<length ns. \<exists>sa sb s.
              deliver pf sa (ns ! j) = (sb, Inr (s, upload_blocks (ns ! j) (urls ! j))))"
proof -
  from assms obtain ns where ns: "normalizeUploads pf uploads = Inr ns"
    by (cases "normalizeUploads pf uploads") (simp_all add: buildImageInputs_def)
  from assms ns obtain refs where refs: "reference_images pf (images cfg) [] = Inr refs"
    by (cases "reference_images pf (images cfg) []") (simp_all add: buildImageInputs_def)
  from assms ns refs have "deliver_all pf st ns refs [] = (st', Inr (cs, ss))"
    by (simp add: buildImageInputs_def)
  from deliver_all_shape [OF this] ns refs show ?thesis by auto
qed

text \<open>
  Claim C7. When \<open>buildImageInputs\<close> returns, its contents are the blocks of the reference
  images followed by one label and one image reference per normalized upload, in the order
  of the normalized uploads, which is the order of the input: the upload at position \<open>j\<close>
  is the normalization of the descriptor at position \<open>j\<close> and is labelled
  \<^verbatim>\<open>upload-(j+1)\<close>, and its image reference is the one its own delivery chose. The
  summaries follow the same order. Nothing is assumed about the strategies.
\<close>

theorem C7_order_preserved:
  assumes "buildImageInputs pf cfg st uploads = (st', Inr (cs, ss))"
  shows "\<exists>refs ns urls.
      reference_images pf (images cfg) [] = Inr refs
    \<and> normalizeUploads pf uploads = Inr ns
    \<and> length ns = min (length uploads) MAX_UPLOAD_COUNT
    \<and> length urls = length ns
    \<and> cs = refs @ concat (map (\<lambda>(n, url). upload_blocks n url) (zip ns urls))
    \<and> map s_id ss = map n_id ns
    \<and> (\<forall>j<length ns.
          normalizeUpload pf j (uploads ! j) = Inr (ns ! j)
          \<and> n_id (ns ! j) = ''upload-'' @ show_nat (j + 1)
          \<and> n_name (ns ! j) = name_of j (uploads ! j)
          \<and> (\<exists>sa sb s. deliver pf sa (ns ! j) =
                           (sb, Inr (s, upload_blocks (ns ! j) (urls ! j)))))"
proof -
  from buildImageInputs_shape [OF assms] obtain refs ns urls where
    a: "reference_images pf (images cfg) [] = Inr refs"
       "normalizeUploads pf uploads = Inr ns"
       "length urls = length ns"
       "cs = refs @ pair_blocks ns urls"
       "map s_id ss = map n_id ns"
    and b: "\<forall>j<length ns. \<exists>sa sb s.
              deliver pf sa (ns ! j) = (sb, Inr (s, upload_blocks (ns ! j) (urls ! j)))"
    by blast
  have len: "length ns = min (length uploads) MAX_UPLOAD_COUNT"
    by (rule normalizeUploads_length [OF a(2)])
  have each: "normalizeUpload pf j (uploads ! j) = Inr (ns ! j)
          \<and> n_id (ns ! j) = ''upload-'' @ show_nat (j + 1)
          \<and> n_name (ns ! j) = name_of j (uploads ! j)
          \<and> (\<exists>sa sb s. deliver pf sa (ns ! j) =
                           (sb, Inr (s, upload_blocks (ns ! j) (urls ! j))))"
    if "j < length ns" for j
  proof -
    have n: "normalizeUpload pf j (uploads ! j) = Inr (ns ! j)"
      by (rule normalizeUploads_nth [OF a(2) that])
    from normalizeUpload_labels [OF n] n b that show ?thesis by blast
  qed
  from a len each show ?thesis by blast
qed

lemma three_run:
  "snd (buildImageInputs failing_store_platform no_images start_state
          [named_buffer_upload, named_url_upload, named_key_upload]) =
     Inr (three_contents,
          [\<lparr> s_id = ''upload-1'', s_name = ''A'', s_bytes = Some 3,
              s_mimeType = Some ''application/octet-stream'', s_strategy = Some ''inline'',
              s_url = None, s_key = None, s_blobPathname = None \<rparr>,
           \<lparr> s_id = ''upload-2'', s_name = ''B'', s_bytes = None,
              s_mimeType = None, s_strategy = Some ''remote-url'',
              s_url = Some ''https://cdn.example/b.png'', s_key = None, s_blobPathname = None \<rparr>,
           \<lparr> s_id = ''upload-3'', s_name = ''C'', s_bytes = None,
              s_mimeType = None, s_strategy = Some ''s3-key'',
              s_url = Some ''https://bucket.example/plans/c.png?sig'',
              s_key = Some ''plans/c.png'', s_blobPathname = None \<rparr>])"
  by code_simp

text \<open>
  Uploads A, B and C, delivered inline, by URL and by a signed key.
\<close>

theorem C7_order_preserved_witness:
  "\<exists>st' ss ns urls.
      buildImageInputs failing_store_platform no_images start_state
          [named_buffer_upload, named_url_upload, named_key_upload]
        = (st', Inr (three_contents, ss))
    \<and> map s_strategy ss = [Some ''inline'', Some ''remote-url'', Some ''s3-key'']
    \<and> normalizeUploads failing_store_platform
          [named_buffer_upload, named_url_upload, named_key_upload] = Inr ns
    \<and> length ns = 3
    \<and> three_contents = concat (map (\<lambda>(n, url). upload_blocks n url) (zip ns urls))
    \<and> map n_id ns = map s_id ss"
proof -
  let ?us = "[named_buffer_upload, named_url_upload, named_key_upload]"
  obtain st' r where run: "buildImageInputs failing_store_platform no_images start_state ?us = (st', r)"
    by (cases "buildImageInputs failing_store_platform no_images start_state ?us")
  with three_run obtain ss where
    r: "buildImageInputs failing_store_platform no_images start_state ?us
          = (st', Inr (three_contents, ss))"
    and strat: "map s_strategy ss = [Some ''inline'', Some ''remote-url'', Some ''s3-key'']"
    by auto
  have refs: "reference_images failing_store_platform (images no_images) [] = Inr []"
    by (simp add: no_images_def)
  from C7_order_preserved [OF r] refs obtain ns urls where
    "normalizeUploads failing_store_platform ?us = Inr ns"
    "length ns = min (length ?us) MAX_UPLOAD_COUNT"
    "three_contents = concat (map (\<lambda>(n, url). upload_blocks n url) (zip ns urls))"
    "map s_id ss = map n_id ns"
    by auto
  with r strat show ?thesis by (auto simp add: MAX_UPLOAD_COUNT_def)
qed

subsection \<open>Attached images\<close>

text \<open>
  Claim C10. In a success response \<^verbatim>\<open>uploadsAttached\<close> is the number of reference images
  of the configuration plus the number of normalized uploads.
\<close>

theorem C10_uploads_attached:
  assumes "POST pf cfg st question uploads = (st', JsonOk body)"
  shows "\<exists>ns. normalizeUploads pf uploads = Inr ns
           \<and> r_uploadsAttached body = length (images cfg) + length ns
           \<and> r_uploadsAttached body = length (images cfg) + min (length uploads) MAX_UPLOAD_COUNT
           \<and> length (r_uploadSummaries body) = length ns"
proof -
  obtain sb r where b: "buildImageInputs pf cfg st uploads = (sb, r)"
    by (cases "buildImageInputs pf cfg st uploads")
  from assms have apikey: "OPENAI_API_KEY pf" and q: "question \<noteq> []"
    by (auto simp add: POST_def split: if_splits)
  from assms apikey q b obtain cs ss where r: "r = Inr (cs, ss)"
    by (cases r) (auto simp add: POST_def Let_def split: error.splits)
  let ?model = "case OPENAI_VISION_MODEL pf of None \<Rightarrow> model_name cfg | Some m \<Rightarrow> m"
  from assms apikey q b r obtain answer where
    "responses_create pf ?model question cs = Inr answer"
    by (cases "responses_create pf ?model question cs")
       (auto simp add: POST_def Let_def split: error.splits)
  with assms apikey q b r have body:
    "r_uploadsAttached body = length (filter is_input_image cs)" "r_uploadSummaries body = ss"
    by (auto simp add: POST_def Let_def)
  from buildImageInputs_shape b r obtain refs ns urls where
    a: "reference_images pf (images cfg) [] = Inr refs"
       "normalizeUploads pf uploads = Inr ns"
       "length urls = length ns"
       "cs = refs @ pair_blocks ns urls"
       "map s_id ss = map n_id ns"
    by blast
  from reference_images_shape [OF a(1)]
  have "length (filter is_input_image refs) = length (images cfg)" by simp
  with a(3,4) pair_blocks_images [OF a(3)]
  have n: "length (filter is_input_image cs) = length (images cfg) + length ns" by simp
  have "length ss = length ns" using a(5) by (metis length_map)
  with body n a(2) normalizeUploads_length [OF a(2)] show ?thesis by simp
qed

lemma post_run:
  "snd (POST example_platform one_image start_state ''Where is Stair 6?''
          [named_url_upload, named_key_upload]) =
     JsonOk \<lparr> r_output = ''answer'', r_model = ''gpt-4.1'', r_uploadsAttached = 3,
              r_uploadSummaries =
                [\<lparr> s_id = ''upload-1'', s_name = ''B'', s_bytes = None,
                    s_mimeType = None, s_strategy = Some ''remote-url'',
                    s_url = Some ''https://cdn.example/b.png'', s_key = None,
                    s_blobPathname = None \<rparr>,
                 \<lparr> s_id = ''upload-2'', s_name = ''C'', s_bytes = None,
                    s_mimeType = None, s_strategy = Some ''s3-key'',
                    s_url = Some ''https://bucket.example/plans/c.png?sig'',
                    s_key = Some ''plans/c.png'', s_blobPathname = None \<rparr>] \<rparr>"
  by code_simp

text \<open>
  One reference image and two uploads: three images attached.
\<close>

theorem C10_uploads_attached_witness:
  "\<exists>st' body. POST example_platform one_image start_state ''Where is Stair 6?''
                 [named_url_upload, named_key_upload] = (st', JsonOk body)
     \<and> length (images one_image) = 1
     \<and> length [named_url_upload, named_key_upload] = 2
     \<and> r_uploadsAttached body = 3"
proof -
  let ?us = "[named_url_upload, named_key_upload]"
  obtain st' r where run: "POST example_platform one_image start_state ''Where is Stair 6?'' ?us = (st', r)"
    by (cases "POST example_platform one_image start_state ''Where is Stair 6?'' ?us")
  with post_run obtain body where
    r: "POST example_platform one_image start_state ''Where is Stair 6?'' ?us = (st', JsonOk body)"
    by auto
  have one: "length (images one_image) = 1" by (simp add: one_image_def)
  from C10_uploads_attached [OF r] one
  have "r_uploadsAttached body = 3" by (auto simp add: MAX_UPLOAD_COUNT_def)
  with r one show ?thesis by auto
qed

end
